theory Spec2Isabelle
  imports Complex_Main "HOL-Library.Word" "HOL-Library.Sublist"
begin

section \<open>JavaScript numbers\<close>

text \<open>
  The sprite loader computes with JavaScript numbers, which are IEEE 754 doubles. A number
  of the embedding is a real (meant to be a double) or one of the three non-finite values,
  so that a division by zero or the square root of a negative number is a value of the
  model as it is a value of the program.

  Arithmetic rounds. \<open>doubleGrid\<close> is the set of the finite doubles \<open>m * 2^e\<close>, with a
  significand of at most 53 bits and an exponent from \<open>-1074\<close> to \<open>971\<close>, together with
  \<open>2^1024\<close> and its negative, which stand for the two infinities while rounding. \<open>rnd x\<close>
  is the element of the grid nearest to \<open>x\<close>, the one with an even significand when \<open>x\<close>
  is halfway between two (round to nearest, ties to even), and an infinity when that
  element is \<open>2^1024\<close> or its negative. Every arithmetic operation is the exact operation on
  reals followed by \<open>rnd\<close>, as IEEE 754 defines it; \<^verbatim>\<open>Math.sqrt\<close> is taken to be
  correctly rounded, which is what the engines compute.

  One thing is idealised: there is a single zero. IEEE's negative zero can arise in this
  code only from a negative operand or a negative zero in the input, and the theorems
  about divisions below take non-negative operands.
\<close>

datatype number = Num real | PosInf | NegInf | NaN

definition doubleGrid :: "real set" where
  "doubleGrid =
     {real_of_int m * 2 powi e | m e. \<bar>m\<bar> \<le> 2 ^ 53 \<and> - 1074 \<le> e \<and> e \<le> 971}"

definition evenDouble :: "real \<Rightarrow> bool" where
  "evenDouble d =
     (\<exists>m e. even m \<and> \<bar>m\<bar> \<le> 2 ^ 53 \<and> - 1074 \<le> e \<and> e \<le> 971 \<and> d = real_of_int m * 2 powi e)"

definition below :: "real \<Rightarrow> real" where
  "below x = Max {d \<in> doubleGrid. d \<le> x}"

definition above :: "real \<Rightarrow> real" where
  "above x = Min {d \<in> doubleGrid. x \<le> d}"

definition nearest :: "real \<Rightarrow> real" where
  "nearest x =
     (let l = below x; u = above x in
      if x - l < u - x then l
      else if u - x < x - l then u
      else if evenDouble l then l else u)"

definition rnd :: "real \<Rightarrow> number" where
  "rnd x =
     (if 2 ^ 1024 \<le> x then PosInf
      else if x \<le> - (2 ^ 1024) then NegInf
      else (let d = nearest x in
            if d = 2 ^ 1024 then PosInf
            else if d = - (2 ^ 1024) then NegInf
            else Num d))"

fun js_mul :: "number \<Rightarrow> number \<Rightarrow> number" where
  "js_mul (Num a) (Num b) = rnd (a * b)"
| "js_mul NaN _ = NaN"
| "js_mul _ NaN = NaN"
| "js_mul (Num a) PosInf = (if a = 0 then NaN else if 0 < a then PosInf else NegInf)"
| "js_mul (Num a) NegInf = (if a = 0 then NaN else if 0 < a then NegInf else PosInf)"
| "js_mul PosInf (Num b) = (if b = 0 then NaN else if 0 < b then PosInf else NegInf)"
| "js_mul NegInf (Num b) = (if b = 0 then NaN else if 0 < b then NegInf else PosInf)"
| "js_mul PosInf PosInf = PosInf"
| "js_mul PosInf NegInf = NegInf"
| "js_mul NegInf PosInf = NegInf"
| "js_mul NegInf NegInf = PosInf"

fun js_div :: "number \<Rightarrow> number \<Rightarrow> number" where
  "js_div (Num a) (Num b) =
     (if b = 0 then (if a = 0 then NaN else if 0 < a then PosInf else NegInf)
      else rnd (a / b))"
| "js_div NaN _ = NaN"
| "js_div _ NaN = NaN"
| "js_div (Num a) PosInf = Num 0"
| "js_div (Num a) NegInf = Num 0"
| "js_div PosInf (Num b) = (if 0 \<le> b then PosInf else NegInf)"
| "js_div NegInf (Num b) = (if 0 \<le> b then NegInf else PosInf)"
| "js_div PosInf PosInf = NaN"
| "js_div PosInf NegInf = NaN"
| "js_div NegInf PosInf = NaN"
| "js_div NegInf NegInf = NaN"

fun js_add :: "number \<Rightarrow> number \<Rightarrow> number" where
  "js_add (Num a) (Num b) = rnd (a + b)"
| "js_add NaN _ = NaN"
| "js_add _ NaN = NaN"
| "js_add PosInf NegInf = NaN"
| "js_add NegInf PosInf = NaN"
| "js_add PosInf _ = PosInf"
| "js_add _ PosInf = PosInf"
| "js_add NegInf _ = NegInf"
| "js_add _ NegInf = NegInf"

text \<open>
  \<^verbatim>\<open>Math.sqrt\<close>, and \<^verbatim>\<open>Math.round\<close>, which is exact: the nearest integer, a tie going
  towards plus infinity, is a double whenever its argument is.
\<close>

fun js_sqrt :: "number \<Rightarrow> number" where
  "js_sqrt (Num a) = (if a < 0 then NaN else rnd (sqrt a))"
| "js_sqrt PosInf = PosInf"
| "js_sqrt NegInf = NaN"
| "js_sqrt NaN = NaN"

fun js_round :: "number \<Rightarrow> number" where
  "js_round (Num a) = Num (of_int \<lfloor>a + 1 / 2\<rfloor>)"
| "js_round PosInf = PosInf"
| "js_round NegInf = NegInf"
| "js_round NaN = NaN"

text \<open>
  The comparisons \<^verbatim>\<open><\<close>, \<^verbatim>\<open>>\<close>, \<^verbatim>\<open>>=\<close>, \<^verbatim>\<open><=\<close> and \<^verbatim>\<open>===\<close>: each is false when an operand
  is NaN.
\<close>

fun js_lt :: "number \<Rightarrow> number \<Rightarrow> bool" where
  "js_lt (Num a) (Num b) = (a < b)"
| "js_lt NaN _ = False"
| "js_lt _ NaN = False"
| "js_lt PosInf _ = False"
| "js_lt _ NegInf = False"
| "js_lt NegInf _ = True"
| "js_lt _ PosInf = True"

definition js_gt :: "number \<Rightarrow> number \<Rightarrow> bool" where
  "js_gt a b = js_lt b a"

definition js_ge :: "number \<Rightarrow> number \<Rightarrow> bool" where
  "js_ge a b = (a \<noteq> NaN \<and> b \<noteq> NaN \<and> \<not> js_lt a b)"

definition js_le :: "number \<Rightarrow> number \<Rightarrow> bool" where
  "js_le a b = (a \<noteq> NaN \<and> b \<noteq> NaN \<and> \<not> js_lt b a)"

definition js_eq :: "number \<Rightarrow> number \<Rightarrow> bool" where
  "js_eq a b = (a \<noteq> NaN \<and> a = b)"

text \<open>Reading a number back: whether it is finite, and its real value when it is.\<close>

fun is_finite :: "number \<Rightarrow> bool" where
  "is_finite (Num a) = True"
| "is_finite _ = False"

fun real_of :: "number \<Rightarrow> real" where
  "real_of (Num a) = a"
| "real_of _ = 0"

section \<open>The data of a sprite sheet\<close>

text \<open>
  The object types of \<^verbatim>\<open>useSpriteLoader.tsx\<close>. Several of them have fields called
  \<^verbatim>\<open>x\<close>, \<^verbatim>\<open>y\<close>, \<^verbatim>\<open>w\<close>, \<^verbatim>\<open>h\<close>; the records keep these names, so a field is written with
  its record (\<open>FrameRect.w\<close>, \<open>Size.w\<close>). \<open>FrameRect\<close> is the anonymous type of
  \<^verbatim>\<open>FrameData.frame\<close> and of \<^verbatim>\<open>spriteSourceSize\<close>.
\<close>

record Size =
  w :: number
  h :: number

record FrameRect =
  x :: number
  y :: number
  w :: number
  h :: number

text \<open>
  \<^verbatim>\<open>processFrameArray\<close> reads only \<^verbatim>\<open>frame.frame\<close> of each element, and it is applied both to
  \<^verbatim>\<open>FrameData\<close> and to the objects \<^verbatim>\<open>parseFrames\<close> pushes into an animation's array. Both
  extend the one-field record \<open>HasFrame\<close>. \<^verbatim>\<open>filename\<close> is the string the array form of a
  manifest carries per frame; it is \<open>None\<close> when the property is missing or not a string.
\<close>

record HasFrame =
  frame :: FrameRect

record FrameData = HasFrame +
  rotated :: bool
  trimmed :: bool
  spriteSourceSize :: FrameRect
  sourceSize :: Size
  filename :: "string option"

text \<open>\<^verbatim>\<open>{ ...frame, scaleRatio }\<close>: the element with every property it had, and the ratio.\<close>

record 'a Scaled =
  spread :: 'a
  scaleRatio :: number

text \<open>The argument of \<^verbatim>\<open>calculateScaleRatio\<close>: an array, or a record of arrays by key.\<close>

datatype 'a Frames = Array "'a list" | Record "(string \<times> 'a list) list"

section \<open>Scale ratios\<close>

text \<open>\<^verbatim>\<open>largestFrame: { w, h, area } | null\<close>, and one pass of the loop that finds it.\<close>

record Largest =
  w :: number
  h :: number
  area :: number

definition areaOf :: "'a HasFrame_scheme \<Rightarrow> number" where
  "areaOf fr = js_mul (FrameRect.w (frame fr)) (FrameRect.h (frame fr))"

definition largerOf :: "'a HasFrame_scheme \<Rightarrow> Largest option \<Rightarrow> Largest option" where
  "largerOf fr largestFrame =
     (let w = FrameRect.w (frame fr); h = FrameRect.h (frame fr); area = js_mul w h in
      case largestFrame of
        None \<Rightarrow> Some \<lparr>Largest.w = w, h = h, area = area\<rparr>
      | Some l \<Rightarrow>
          if js_gt area (Largest.area l) then Some \<lparr>Largest.w = w, h = h, area = area\<rparr>
          else largestFrame)"

definition findLargest :: "'a HasFrame_scheme list \<Rightarrow> Largest option" where
  "findLargest frameArray = fold largerOf frameArray None"

definition ratioAgainst :: "Largest option \<Rightarrow> 'a HasFrame_scheme \<Rightarrow> number" where
  "ratioAgainst largestFrame fr =
     (let w = FrameRect.w (frame fr); h = FrameRect.h (frame fr); area = js_mul w h in
      case largestFrame of
        Some l \<Rightarrow>
          if js_eq area (Largest.area l) then Num 1
          else js_sqrt (js_div area (Largest.area l))
      | None \<Rightarrow> Num 1)"

definition processFrameArray :: "'a HasFrame_scheme list \<Rightarrow> 'a HasFrame_scheme Scaled list" where
  "processFrameArray frameArray =
     (let largestFrame = findLargest frameArray in
      map (\<lambda>fr. \<lparr>spread = fr, scaleRatio = ratioAgainst largestFrame fr\<rparr>) frameArray)"

fun calculateScaleRatio :: "'a HasFrame_scheme Frames \<Rightarrow> 'a HasFrame_scheme Scaled Frames" where
  "calculateScaleRatio (Array frameArray) = Array (processFrameArray frameArray)"
| "calculateScaleRatio (Record entries) =
     Record (map (\<lambda>(key, frameArray). (key, processFrameArray frameArray)) entries)"

section \<open>Counting loops\<close>

text \<open>
  \<^verbatim>\<open>for (let i = start; i < bound; i++) body\<close>, with the state the body updates passed
  through. The bound is a number: the loop does not start when it is NaN, and it never
  ends when it is \<open>PosInf\<close>. Not returning is the value \<open>None\<close>.
\<close>

partial_function (option) forLoop ::
  "number \<Rightarrow> (nat \<Rightarrow> 's \<Rightarrow> 's option) \<Rightarrow> nat \<Rightarrow> 's \<Rightarrow> 's option" where
  "forLoop bound body i s =
     (if js_lt (Num (real i)) bound
      then Option.bind (body i s) (\<lambda>s'. forLoop bound body (Suc i) s')
      else Some s)"

section \<open>Grid inference\<close>

text \<open>\<^verbatim>\<open>checkIfFrameIsEmpty\<close>: the loop \<^verbatim>\<open>for (let i = 3; i < frameData.length; i += 4)\<close>.\<close>

function checkFrom :: "nat \<Rightarrow> 8 word list \<Rightarrow> bool" where
  "checkFrom i frameData =
     (if i < length frameData
      then (if frameData ! i \<noteq> 0 then False else checkFrom (i + 4) frameData)
      else True)"
  by pat_completeness auto
termination
  by (relation "measure (\<lambda>(i, frameData). length frameData - i)") auto

definition checkIfFrameIsEmpty :: "8 word list \<Rightarrow> bool" where
  "checkIfFrameIsEmpty frameData = checkFrom 3 frameData"

record SpriteMetaDimension =
  row :: nat
  col :: nat

record Image =
  width :: number
  height :: number

record Texture =
  image :: "Image option"

text \<open>
  The 2D context is the host's: \<open>getImageData\<close> stands for
  \<^verbatim>\<open>ctx.getImageData(sx, sy, sw, sh).data\<close> on the canvas the texture's image was drawn to,
  and is a parameter of the model. \<open>None\<close> for the context is \<^verbatim>\<open>getContext('2d')\<close>
  returning null.
\<close>

record CanvasRenderingContext2D =
  getImageData :: "number \<Rightarrow> number \<Rightarrow> number \<Rightarrow> number \<Rightarrow> 8 word list"

datatype error = Error string | TypeError

record Grid =
  rows :: number
  columns :: number
  frameWidth :: number
  frameHeight :: number
  emptyFrames :: "SpriteMetaDimension list"

definition getRowsAndColumns ::
  "CanvasRenderingContext2D option \<Rightarrow> Texture \<Rightarrow> number \<Rightarrow> (error + Grid) option" where
  "getRowsAndColumns canvasContext texture totalFrames =
     (case image texture of
        Some img \<Rightarrow>
          (case canvasContext of
             None \<Rightarrow> Some (Inl (Error ''Failed to get 2d context''))
           | Some ctx \<Rightarrow>
               (let width = width img;
                    height = height img;
                    cols = js_round (js_sqrt (js_mul totalFrames (js_div width height)));
                    rows = js_round (js_div totalFrames cols);
                    frameWidth = js_div width cols;
                    frameHeight = js_div height rows
                in map_option
                     (\<lambda>emptyFrames.
                        Inr \<lparr>rows = rows, columns = cols, frameWidth = frameWidth,
                             frameHeight = frameHeight, emptyFrames = emptyFrames\<rparr>)
                     (forLoop rows
                        (\<lambda>row. forLoop cols
                           (\<lambda>col emptyFrames.
                              (let frameIndex = js_add (js_mul (Num (real row)) cols) (Num (real col)) in
                               if js_ge frameIndex totalFrames
                               then Some (emptyFrames @ [\<lparr>row = row, col = col\<rparr>])
                               else
                                 (let frameData =
                                        getImageData ctx
                                          (js_mul (Num (real col)) frameWidth)
                                          (js_mul (Num (real row)) frameHeight)
                                          frameWidth frameHeight;
                                      isEmpty = checkIfFrameIsEmpty frameData
                                  in Some (if isEmpty
                                           then emptyFrames @ [\<lparr>row = row, col = col\<rparr>]
                                           else emptyFrames))))
                           0)
                        0 [])))
      | None \<Rightarrow>
          Some (Inr \<lparr>rows = Num 0, columns = Num 0, frameWidth = Num 0,
                     frameHeight = Num 0, emptyFrames = []\<rparr>))"

section \<open>The manifest of a bare image\<close>

text \<open>
  The two loops of \<^verbatim>\<open>parseSpriteData\<close> that fill \<^verbatim>\<open>nonJsonFrames.frames\<close> from the result of
  \<open>getRowsAndColumns\<close> when no JSON was given.
\<close>

definition nonJsonFrames :: "Grid \<Rightarrow> FrameData list option" where
  "nonJsonFrames grid =
     (let rows = rows grid; columns = columns grid;
          frameWidth = frameWidth grid; frameHeight = frameHeight grid;
          emptyFrames = emptyFrames grid
      in forLoop rows
           (\<lambda>row. forLoop columns
              (\<lambda>col frames.
                 (let isExcluded = list_ex (\<lambda>coord. SpriteMetaDimension.row coord = row \<and>
                                               SpriteMetaDimension.col coord = col) emptyFrames in
                  if isExcluded then Some frames
                  else Some (frames @
                    [\<lparr>frame = \<lparr>FrameRect.x = js_mul (Num (real col)) frameWidth,
                                y = js_mul (Num (real row)) frameHeight,
                                w = frameWidth, h = frameHeight\<rparr>,
                      rotated = False, trimmed = False,
                      spriteSourceSize =
                        \<lparr>FrameRect.x = Num 0, y = Num 0, w = frameWidth, h = frameHeight\<rparr>,
                      sourceSize = \<lparr>Size.w = frameWidth, h = frameHeight\<rparr>,
                      filename = None\<rparr>])))
              0)
           0 [])"

section \<open>Grouping frames by animation name\<close>

text \<open>
  \<^verbatim>\<open>String.prototype.toLowerCase\<close> and \<^verbatim>\<open>String.prototype.indexOf\<close>. A \<open>string\<close> is a list of
  characters with codes below 256, read as the code units U+0000 to U+00FF of a JavaScript
  string; a name or key with a code unit above that range is not a value of this type.
  On this range \<^verbatim>\<open>toLowerCase\<close> adds 32 to the capital letters A to Z (65 to 90) and to the
  capital letters U+00C0 to U+00DE except the multiplication sign U+00D7, and leaves every
  other code unit as it is.
\<close>

definition isCapital :: "nat \<Rightarrow> bool" where
  "isCapital n = (65 \<le> n \<and> n \<le> 90 \<or> 192 \<le> n \<and> n \<le> 214 \<or> 216 \<le> n \<and> n \<le> 222)"

definition lowerChar :: "char \<Rightarrow> char" where
  "lowerChar c = (if isCapital (of_char c) then char_of (of_char c + 32 :: nat) else c)"

definition toLowerCase :: "string \<Rightarrow> string" where
  "toLowerCase s = map lowerChar s"

text \<open>\<open>indexOfFrom s t i\<close>: the search of \<open>t\<close> in a string whose suffix from index \<open>i\<close> is \<open>s\<close>.\<close>

fun indexOfFrom :: "string \<Rightarrow> string \<Rightarrow> nat \<Rightarrow> int" where
  "indexOfFrom [] t i = (if t = [] then int i else - 1)"
| "indexOfFrom (c # s) t i = (if prefix t (c # s) then int i else indexOfFrom s t (Suc i))"

definition indexOf :: "string \<Rightarrow> string \<Rightarrow> int" where
  "indexOf s t = indexOfFrom s t 0"

text \<open>
  The manifest as the JSON gives it. In the array form \<^verbatim>\<open>frames\<close> is an array of frames. In
  the hash form it is an object, kept as the list of its entries in the order \<^verbatim>\<open>for ... in\<close>
  and \<^verbatim>\<open>Object.values\<close> enumerate them. The grouping loop reads each value of the object as
  one frame (\<^verbatim>\<open>value['frame']\<close>), while the declared type \<^verbatim>\<open>Record<string, FrameData[]>\<close>
  makes it an array of frames; a value can be either. Of \<^verbatim>\<open>SpriteData\<close> only \<^verbatim>\<open>frames\<close> is
  read by the functions of this section.
\<close>

datatype HashValue = Single FrameData | Multiple "FrameData list"

datatype ManifestFrames = ArrayForm "FrameData list" | HashForm "(string \<times> HashValue) list"

record SpriteData =
  frames :: ManifestFrames

text \<open>The object pushed into an animation's array: \<^verbatim>\<open>{ x, y, w, h, frame, sourceSize }\<close>.\<close>

record SpriteItem = HasFrame +
  x :: number
  y :: number
  w :: number
  h :: number
  sourceSize :: Size

definition spriteItem :: "FrameData \<Rightarrow> SpriteItem" where
  "spriteItem fd =
     (let frameData = HasFrame.frame fd;
          x = FrameRect.x frameData;
          y = FrameRect.y frameData;
          width = FrameRect.w frameData;
          height = FrameRect.h frameData;
          sourceWidth = Size.w (FrameData.sourceSize fd);
          sourceHeight = Size.h (FrameData.sourceSize fd)
      in \<lparr>frame = frameData, x = x, y = y, w = width, h = height,
          sourceSize = \<lparr>Size.w = sourceWidth, h = sourceHeight\<rparr>\<rparr>)"

definition nameMatches :: "string \<Rightarrow> string \<Rightarrow> bool" where
  "nameMatches s delimiter = (indexOf (toLowerCase s) (toLowerCase delimiter) \<noteq> - 1)"

text \<open>The inner loop of the array branch, for one animation name.\<close>

definition arrayGroup :: "string \<Rightarrow> FrameData list \<Rightarrow> SpriteItem list" where
  "arrayGroup delimiter values =
     fold (\<lambda>fd bucket.
             if (case filename fd of Some s \<Rightarrow> nameMatches s delimiter | None \<Rightarrow> False)
             then bucket @ [spriteItem fd]
             else bucket)
       values []"

text \<open>
  The inner loop of the hash branch. When a value is an array, \<^verbatim>\<open>value['frame']\<close> is
  undefined and reading \<^verbatim>\<open>frameData['x']\<close> throws a TypeError.
\<close>

definition hashGroup :: "string \<Rightarrow> (string \<times> HashValue) list \<Rightarrow> error + SpriteItem list" where
  "hashGroup delimiter entries =
     fold (\<lambda>(innerKey, hv) acc.
             case acc of
               Inl e \<Rightarrow> Inl e
             | Inr bucket \<Rightarrow>
                 (case hv of
                    Multiple _ \<Rightarrow> Inl TypeError
                  | Single fd \<Rightarrow>
                      Inr (if nameMatches innerKey delimiter then bucket @ [spriteItem fd]
                           else bucket)))
       entries (Inr [])"

text \<open>
  An animation's array after \<^verbatim>\<open>sprites[name].frame = calculateScaleRatio(sprites[name])\<close>: its
  elements, and the property \<^verbatim>\<open>frame\<close> set on the array object.
\<close>

record Animation =
  elements :: "SpriteItem list"
  frame :: "SpriteItem Scaled Frames"

definition withScaleRatios :: "(string \<rightharpoonup> SpriteItem list) \<Rightarrow> (string \<rightharpoonup> Animation)" where
  "withScaleRatios sprites =
     (\<lambda>name. map_option
        (\<lambda>bucket. \<lparr>elements = bucket, frame = calculateScaleRatio (Array bucket)\<rparr>)
        (sprites name))"

text \<open>
  The object \<^verbatim>\<open>sprites\<close> while it is filled. It starts as \<^verbatim>\<open>{}\<close>, and an assignment
  \<^verbatim>\<open>sprites[name] = []\<close> followed by the pushes of the inner loop gives it the own property
  \<open>name\<close>, except for the name \<^verbatim>\<open>__proto__\<close>: that assignment calls the setter of
  \<^verbatim>\<open>Object.prototype\<close> and makes the array the prototype of \<^verbatim>\<open>sprites\<close>, and
  \<^verbatim>\<open>sprites['__proto__']\<close> reads it back. \<open>own\<close> are the own properties and \<open>proto\<close> is the
  array installed as prototype, if any.
\<close>

record SpritesObject =
  own :: "string \<rightharpoonup> SpriteItem list"
  proto :: "SpriteItem list option"

definition setProperty :: "string \<Rightarrow> SpriteItem list \<Rightarrow> SpritesObject \<Rightarrow> SpritesObject" where
  "setProperty name bucket sprites =
     (if name = ''__proto__'' then sprites\<lparr>proto := Some bucket\<rparr>
      else sprites\<lparr>own := (own sprites)(name \<mapsto> bucket)\<rparr>)"

text \<open>\<^verbatim>\<open>String(n)\<close> for an array index: the property name under which \<^verbatim>\<open>for ... in\<close> finds it.\<close>

definition digitChar :: "nat \<Rightarrow> char" where
  "digitChar d = ''0123456789'' ! d"

function showNat :: "nat \<Rightarrow> string" where
  "showNat n = (if n < 10 then [digitChar n] else showNat (n div 10) @ [digitChar (n mod 10)])"
  by pat_completeness auto
termination
  by (relation "measure (\<lambda>n. n)") auto

text \<open>
  What \<^verbatim>\<open>parseFrames\<close> returns: the record of animations, the same when its prototype is an
  array (given with that array), or one array of frames.
\<close>

datatype Parsed =
    Sprites "string \<rightharpoonup> Animation"
  | SpritesOnArray "string \<rightharpoonup> Animation" "SpriteItem list"
  | Flat "FrameData Scaled Frames"

text \<open>
  The loop \<^verbatim>\<open>for (const frame in sprites) sprites[frame].frame =
  calculateScaleRatio(sprites[frame])\<close>. It visits the own properties, each an array, and then
  the enumerable properties of the prototype that no own property hides: the indices of the
  array installed by the name \<^verbatim>\<open>__proto__\<close>. Under an index \<^verbatim>\<open>sprites[frame]\<close> is an element
  \<^verbatim>\<open>{ x, y, w, h, frame, sourceSize }\<close>, not an array, so \<^verbatim>\<open>calculateScaleRatio\<close> takes it for a
  record and calls \<^verbatim>\<open>processFrameArray\<close> on the number under its first key, where
  \<^verbatim>\<open>for ... of\<close> throws a TypeError.
\<close>

definition scaleAnimations :: "SpritesObject \<Rightarrow> error + Parsed option" where
  "scaleAnimations sprites =
     (case proto sprites of
        None \<Rightarrow> Inr (Some (Sprites (withScaleRatios (own sprites))))
      | Some inherited \<Rightarrow>
          if list_ex (\<lambda>i. own sprites (showNat i) = None) [0..<length inherited]
          then Inl TypeError
          else Inr (Some (SpritesOnArray (withScaleRatios (own sprites)) inherited)))"

text \<open>
  \<^verbatim>\<open>parseFrames\<close>, with \<^verbatim>\<open>animationNames\<close> and \<^verbatim>\<open>spriteDataRef.current\<close> as arguments. An array
  is truthy in JavaScript also when it is empty, so \<^verbatim>\<open>delimiters &&\<close> asks whether the names
  are there at all. The result \<open>None\<close> is \<^verbatim>\<open>undefined\<close>.
\<close>

definition parseFrames :: "string list option \<Rightarrow> SpriteData option \<Rightarrow> error + Parsed option" where
  "parseFrames animationNames spriteData =
     (case spriteData of
        None \<Rightarrow> Inr None
      | Some data \<Rightarrow>
          (case (animationNames, frames data) of
             (Some delimiters, ArrayForm values) \<Rightarrow>
               (let sprites =
                      fold (\<lambda>delimiter sprites.
                              setProperty delimiter (arrayGroup delimiter values) sprites)
                        delimiters \<lparr>own = Map.empty, proto = None\<rparr>
                in scaleAnimations sprites)
           | (Some delimiters, HashForm entries) \<Rightarrow>
               (case fold (\<lambda>delimiter acc.
                             case acc of
                               Inl e \<Rightarrow> Inl e
                             | Inr sprites \<Rightarrow>
                                 (case hashGroup delimiter entries of
                                    Inl e \<Rightarrow> Inl e
                                  | Inr bucket \<Rightarrow> Inr (setProperty delimiter bucket sprites)))
                       delimiters (Inr \<lparr>own = Map.empty, proto = None\<rparr>) of
                  Inl e \<Rightarrow> Inl e
                | Inr sprites \<Rightarrow> scaleAnimations sprites)
           | (None, ArrayForm values) \<Rightarrow>
               Inr (Some (Flat (calculateScaleRatio (Array values))))
           | (None, HashForm entries) \<Rightarrow>
               (let spritesArr =
                      concat (map (\<lambda>(innerKey, hv).
                                     case hv of Single fd \<Rightarrow> [fd] | Multiple fds \<Rightarrow> fds)
                                entries)
                in Inr (Some (Flat (calculateScaleRatio (Array spritesArr)))))))"

section \<open>Notions used to state the properties\<close>

text \<open>
  A finite double, and a frame that is a pixel rectangle: its width and height are finite
  doubles and not negative. \<open>exactArea\<close> is the area \<open>w*h\<close> of such a frame as a real,
  before rounding, and \<open>groupsOf\<close> are the arrays (one, or one per key) that
  \<open>calculateScaleRatio\<close> normalises.
\<close>

definition isDouble :: "real \<Rightarrow> bool" where
  "isDouble a = (a \<in> doubleGrid \<and> \<bar>a\<bar> < 2 ^ 1024)"

definition pixelDims :: "'a HasFrame_scheme \<Rightarrow> bool" where
  "pixelDims fr =
     (is_finite (FrameRect.w (HasFrame.frame fr)) \<and> is_finite (FrameRect.h (HasFrame.frame fr))
      \<and> isDouble (real_of (FrameRect.w (HasFrame.frame fr)))
      \<and> isDouble (real_of (FrameRect.h (HasFrame.frame fr)))
      \<and> 0 \<le> real_of (FrameRect.w (HasFrame.frame fr))
      \<and> 0 \<le> real_of (FrameRect.h (HasFrame.frame fr)))"

definition exactArea :: "'a HasFrame_scheme \<Rightarrow> real" where
  "exactArea fr =
     real_of (FrameRect.w (HasFrame.frame fr)) * real_of (FrameRect.h (HasFrame.frame fr))"

text \<open>
  The values the area of a pixel rectangle can take: a finite double that is not negative,
  or plus infinity.
\<close>

definition nonNegative :: "number \<Rightarrow> bool" where
  "nonNegative n = (case n of Num d \<Rightarrow> 0 \<le> d \<and> isDouble d | PosInf \<Rightarrow> True | _ \<Rightarrow> False)"

fun groupsOf :: "'a Frames \<Rightarrow> 'a list list" where
  "groupsOf (Array fs) = [fs]"
| "groupsOf (Record entries) = map snd entries"

text \<open>An untrimmed square frame of side \<open>a\<close> at the origin, for the examples.\<close>

definition square :: "real \<Rightarrow> FrameData" where
  "square a =
     \<lparr>HasFrame.frame = \<lparr>FrameRect.x = Num 0, y = Num 0, w = Num a, h = Num a\<rparr>,
      rotated = False, trimmed = False,
      spriteSourceSize = \<lparr>FrameRect.x = Num 0, y = Num 0, w = Num a, h = Num a\<rparr>,
      sourceSize = \<lparr>Size.w = Num a, h = Num a\<rparr>, filename = None\<rparr>"

text \<open>
  The cells of a grid of \<open>R\<close> rows and \<open>C\<close> columns in row-major order, and the bytes the
  inference samples for a cell: \<^verbatim>\<open>getImageData(col * frameWidth, row * frameHeight,
  frameWidth, frameHeight).data\<close>.
\<close>

definition gridCells :: "nat \<Rightarrow> nat \<Rightarrow> SpriteMetaDimension list" where
  "gridCells R C = concat (map (\<lambda>r. map (\<lambda>c. \<lparr>row = r, col = c\<rparr>) [0..<C]) [0..<R])"

definition cellData ::
  "CanvasRenderingContext2D \<Rightarrow> number \<Rightarrow> number \<Rightarrow> SpriteMetaDimension \<Rightarrow> 8 word list" where
  "cellData ctx fw fh cell =
     getImageData ctx (js_mul (Num (real (col cell))) fw) (js_mul (Num (real (row cell))) fh) fw fh"

text \<open>
  The number of columns as the program computes it from the width and height of the image
  and the number of frames: \<^verbatim>\<open>Math.round(Math.sqrt(totalFrames * (width / height)))\<close>.
\<close>

definition computedColumns :: "real \<Rightarrow> real \<Rightarrow> real \<Rightarrow> number" where
  "computedColumns W H n = js_round (js_sqrt (js_mul (Num n) (js_div (Num W) (Num H))))"

text \<open>
  The frame the specification gives to a cell of the grid: \<open>x = col * frameWidth\<close>,
  \<open>y = row * frameHeight\<close>, \<open>w = frameWidth\<close>, \<open>h = frameHeight\<close>.
\<close>

definition gridFrame :: "number \<Rightarrow> number \<Rightarrow> SpriteMetaDimension \<Rightarrow> FrameData" where
  "gridFrame fw fh cell =
     \<lparr>HasFrame.frame = \<lparr>FrameRect.x = js_mul (Num (real (col cell))) fw,
                        y = js_mul (Num (real (row cell))) fh, w = fw, h = fh\<rparr>,
      rotated = False, trimmed = False,
      spriteSourceSize = \<lparr>FrameRect.x = Num 0, y = Num 0, w = fw, h = fh\<rparr>,
      sourceSize = \<lparr>Size.w = fw, h = fh\<rparr>, filename = None\<rparr>"

text \<open>
  Inputs for the examples: a texture with a decoded image of the given size, a canvas on
  which every sampled region is opaque, and one on which only the region at the origin is
  fully transparent.
\<close>

definition sheet :: "real \<Rightarrow> real \<Rightarrow> Texture" where
  "sheet W H = \<lparr>image = Some \<lparr>width = Num W, height = Num H\<rparr>\<rparr>"

definition opaqueContext :: CanvasRenderingContext2D where
  "opaqueContext = \<lparr>getImageData = (\<lambda>sx sy sw sh. [0, 0, 0, 255])\<rparr>"






fun hashFrames :: "HashValue \<Rightarrow> FrameData list" where
  "hashFrames (Single fd) = [fd]"
| "hashFrames (Multiple fds) = fds"


fun allFrames :: "ManifestFrames \<Rightarrow> FrameData list" where
  "allFrames (ArrayForm values) = values"
| "allFrames (HashForm entries) = concat (map (\<lambda>(innerKey, hv). hashFrames hv) entries)"



text \<open>
  What a bucket holds for a frame of the manifest: the rectangle of the frame, as the
  properties \<open>x\<close>, \<open>y\<close>, \<open>w\<close>, \<open>h\<close> and as \<open>frame\<close>, and the width and height of its source
  size.
\<close>

definition bucketItem :: "FrameData \<Rightarrow> SpriteItem" where
  "bucketItem fd =
     \<lparr>HasFrame.frame = HasFrame.frame fd,
      x = FrameRect.x (HasFrame.frame fd), y = FrameRect.y (HasFrame.frame fd),
      w = FrameRect.w (HasFrame.frame fd), h = FrameRect.h (HasFrame.frame fd),
      sourceSize = \<lparr>Size.w = Size.w (FrameData.sourceSize fd),
                    h = Size.h (FrameData.sourceSize fd)\<rparr>\<rparr>"


section \<open>Rounding to a double\<close>

text \<open>
  Facts about \<open>rnd\<close>: it leaves a double as it is, it is monotone, it keeps a value between
  the doubles that enclose it, and it overflows to infinity from \<open>2^1024\<close> on.
\<close>

lemma doubleGridI:
  "\<bar>m\<bar> \<le> 2 ^ 53 \<Longrightarrow> - 1074 \<le> e \<Longrightarrow> e \<le> 971 \<Longrightarrow> real_of_int m * 2 powi e \<in> doubleGrid"
  unfolding doubleGrid_def by blast

lemma doubleGridE:
  assumes "d \<in> doubleGrid"
  obtains m e where "\<bar>m\<bar> \<le> 2 ^ 53" "- 1074 \<le> e" "e \<le> 971" "d = real_of_int m * 2 powi e"
  using assms unfolding doubleGrid_def by blast

lemma finite_doubleGrid: "finite doubleGrid"
proof -
  have "doubleGrid \<subseteq> (\<lambda>p. real_of_int (fst p) * 2 powi (snd p)) ` ({- (2 ^ 53) .. 2 ^ 53} \<times> {- 1074 .. 971})"
  proof
    fix d assume "d \<in> doubleGrid"
    then obtain m e where me: "\<bar>m\<bar> \<le> 2 ^ 53" "- 1074 \<le> e" "e \<le> 971" "d = real_of_int m * 2 powi e"
      by (rule doubleGridE)
    then have "(m, e) \<in> {- (2 ^ 53) .. 2 ^ 53} \<times> {- 1074 .. 971}"
      by (simp add: abs_le_iff)
    then show "d \<in> (\<lambda>p. real_of_int (fst p) * 2 powi (snd p)) ` ({- (2 ^ 53) .. 2 ^ 53} \<times> {- 1074 .. 971})"
      using me(4) by (intro image_eqI[where x = "(m, e)"]) simp_all
  qed
  moreover have "finite ((\<lambda>p. real_of_int (fst p) * 2 powi (snd p)) ` ({- (2 ^ 53 :: int) .. 2 ^ 53} \<times> {- 1074 .. 971 :: int}))"
    by (intro finite_imageI finite_cartesian_product) simp_all
  ultimately show ?thesis by (rule finite_subset)
qed

lemma top_in_grid: "2 ^ 1024 \<in> doubleGrid"
proof -
  have "real_of_int (2 ^ 53) * 2 powi 971 \<in> doubleGrid" by (rule doubleGridI) simp_all
  moreover have "real_of_int (2 ^ 53) * 2 powi 971 = 2 ^ 1024"
    by (simp add: power_add[symmetric])
  ultimately show ?thesis by simp
qed

lemma neg_in_grid: "d \<in> doubleGrid \<Longrightarrow> - d \<in> doubleGrid"
proof (erule doubleGridE)
  fix m e assume "\<bar>m\<bar> \<le> 2 ^ 53" "- 1074 \<le> e" "e \<le> 971" "d = real_of_int m * 2 powi e"
  then have "\<bar>- m\<bar> \<le> 2 ^ 53" "- d = real_of_int (- m) * 2 powi e" by simp_all
  then show "- d \<in> doubleGrid" using doubleGridI[of "- m" e] \<open>- 1074 \<le> e\<close> \<open>e \<le> 971\<close> by metis
qed

lemma grid_bound: assumes "d \<in> doubleGrid" shows "\<bar>d\<bar> \<le> 2 ^ 1024"
proof -
  from assms obtain m e where me: "\<bar>m\<bar> \<le> 2 ^ 53" "- 1074 \<le> e" "e \<le> 971" "d = real_of_int m * 2 powi e"
    by (rule doubleGridE)
  have "\<bar>d\<bar> = \<bar>real_of_int m\<bar> * 2 powi e" by (simp add: me abs_mult)
  also have "\<dots> \<le> 2 ^ 53 * 2 powi e"
  proof (rule mult_right_mono)
    have "real_of_int \<bar>m\<bar> \<le> real_of_int (2 ^ 53)" using me(1) by (rule of_int_le_iff[THEN iffD2])
    then show "\<bar>real_of_int m\<bar> \<le> 2 ^ 53" by simp
  qed simp
  also have "\<dots> \<le> 2 ^ 53 * 2 powi 971"
    by (intro mult_left_mono power_int_increasing) (use me in simp_all)
  also have "\<dots> = 2 ^ 1024" by (simp add: power_add[symmetric])
  finally show ?thesis .
qed

lemma bottom_in_grid: "- (2 ^ 1024) \<in> doubleGrid"
  using neg_in_grid[OF top_in_grid] by simp

lemma below_props:
  assumes "- (2 ^ 1024) \<le> p"
  shows "below p \<in> doubleGrid" "below p \<le> p" "\<And>d. d \<in> doubleGrid \<Longrightarrow> d \<le> p \<Longrightarrow> d \<le> below p"
proof -
  let ?S = "{d \<in> doubleGrid. d \<le> p}"
  have fin: "finite ?S" using finite_doubleGrid by simp
  have ne: "?S \<noteq> {}" using bottom_in_grid assms by blast
  have "Max ?S \<in> ?S" using fin ne by (rule Max_in)
  then show "below p \<in> doubleGrid" "below p \<le> p" by (simp_all add: below_def)
  show "d \<le> below p" if "d \<in> doubleGrid" "d \<le> p" for d
    unfolding below_def using fin that by (intro Max_ge) simp_all
qed

lemma above_props:
  assumes "p \<le> 2 ^ 1024"
  shows "above p \<in> doubleGrid" "p \<le> above p" "\<And>d. d \<in> doubleGrid \<Longrightarrow> p \<le> d \<Longrightarrow> above p \<le> d"
proof -
  let ?S = "{d \<in> doubleGrid. p \<le> d}"
  have fin: "finite ?S" using finite_doubleGrid by simp
  have ne: "?S \<noteq> {}" using top_in_grid assms by blast
  have "Min ?S \<in> ?S" using fin ne by (rule Min_in)
  then show "above p \<in> doubleGrid" "p \<le> above p" by (simp_all add: above_def)
  show "above p \<le> d" if "d \<in> doubleGrid" "p \<le> d" for d
    unfolding above_def using fin that by (intro Min_le) simp_all
qed

lemma below_exact: "p \<in> doubleGrid \<Longrightarrow> below p = p"
  using below_props[of p] grid_bound[of p] by (simp add: abs_le_iff order.antisym)

lemma above_exact: "p \<in> doubleGrid \<Longrightarrow> above p = p"
  using above_props[of p] grid_bound[of p] by (simp add: abs_le_iff order.antisym)

lemma nearest_exact: "p \<in> doubleGrid \<Longrightarrow> nearest p = p"
  by (simp add: nearest_def below_exact above_exact)

lemma rnd_exact: "p \<in> doubleGrid \<Longrightarrow> \<bar>p\<bar> < 2 ^ 1024 \<Longrightarrow> rnd p = Num p"
  by (auto simp: rnd_def nearest_exact Let_def)

lemma nearest_cases:
  "nearest p = below p \<or> nearest p = above p"
  by (simp add: nearest_def Let_def)

lemma nearest_in_grid:
  assumes "- (2 ^ 1024) \<le> p" "p \<le> 2 ^ 1024"
  shows "nearest p \<in> doubleGrid"
  using nearest_cases[of p] below_props(1)[OF assms(1)] above_props(1)[OF assms(2)] by auto

lemma nearest_mono:
  assumes "- (2 ^ 1024) \<le> p" "p \<le> q" "q \<le> 2 ^ 1024"
  shows "nearest p \<le> nearest q"
proof -
  have bx: "- (2 ^ 1024) \<le> p" "p \<le> 2 ^ 1024" and by': "- (2 ^ 1024) \<le> q" "q \<le> 2 ^ 1024"
    using assms by linarith+
  note lx = below_props[OF bx(1)] and ux = above_props[OF bx(2)]
  note ly = below_props[OF by'(1)] and uy = above_props[OF by'(2)]
  show ?thesis
  proof (cases "above p \<le> below q")
    case True
    have "nearest p \<le> above p" using nearest_cases[of p] lx(2) ux(2) by auto
    moreover have "below q \<le> nearest q" using nearest_cases[of q] ly(2) uy(2) by auto
    ultimately show ?thesis using True by linarith
  next
    case False
    have "below q < p"
    proof (rule ccontr)
      assume "\<not> below q < p"
      then have "above p \<le> below q" using ux(3)[OF ly(1)] by simp
      with False show False by simp
    qed
    then have "below q \<le> below p" using lx(3)[OF ly(1)] by simp
    moreover have "below p \<le> below q" using ly(3)[OF lx(1)] lx(2) assms(2) by simp
    ultimately have l: "below q = below p" by simp
    have "q < above p"
    proof (rule ccontr)
      assume "\<not> q < above p"
      then have "above p \<le> below q" using ly(3)[OF ux(1)] by simp
      with False show False by simp
    qed
    then have "above q \<le> above p" using uy(3)[OF ux(1)] by simp
    moreover have "above p \<le> above q" using ux(3)[OF uy(1)] uy(2) assms(2) by simp
    ultimately have u: "above q = above p" by simp
    have lu: "below p \<le> above p" using lx(2) ux(2) by linarith
    show ?thesis
      unfolding nearest_def Let_def l u using assms(2) lu by (auto split: if_splits)
  qed
qed

lemma rnd_not_NaN: "rnd p \<noteq> NaN"
  by (simp add: rnd_def Let_def)

lemma rnd_mono:
  assumes "p \<le> q"
  shows "js_le (rnd p) (rnd q)"
proof -
  consider "2 ^ 1024 \<le> q" | "p \<le> - (2 ^ 1024)" | "- (2 ^ 1024) < p" "q < 2 ^ 1024"
    by linarith
  then show ?thesis
  proof cases
    case 1
    then have "rnd q = PosInf" by (simp add: rnd_def)
    then show ?thesis using rnd_not_NaN[of p] by (cases "rnd p") (simp_all add: js_le_def)
  next
    case 2
    then have "rnd p = NegInf" by (simp add: rnd_def)
    then show ?thesis using rnd_not_NaN[of q] by (cases "rnd q") (simp_all add: js_le_def)
  next
    case 3
    have xy: "- (2 ^ 1024) \<le> p" "p \<le> 2 ^ 1024" "- (2 ^ 1024) \<le> q" "q \<le> 2 ^ 1024"
      using 3 assms by linarith+
    have m: "nearest p \<le> nearest q"
      using nearest_mono[OF xy(1) assms xy(4)] .
    have bx: "\<bar>nearest p\<bar> \<le> 2 ^ 1024" using grid_bound[OF nearest_in_grid[OF xy(1,2)]] .
    have by': "\<bar>nearest q\<bar> \<le> 2 ^ 1024" using grid_bound[OF nearest_in_grid[OF xy(3,4)]] .
    have rx: "rnd p = (if nearest p = 2 ^ 1024 then PosInf else if nearest p = - (2 ^ 1024) then NegInf else Num (nearest p))"
      using 3 assms by (simp add: rnd_def Let_def not_le)
    have ry: "rnd q = (if nearest q = 2 ^ 1024 then PosInf else if nearest q = - (2 ^ 1024) then NegInf else Num (nearest q))"
      using 3 assms by (simp add: rnd_def Let_def not_le)
    show ?thesis
      unfolding rx ry js_le_def using m bx by' by (auto simp: abs_le_iff)
  qed
qed

lemma rnd_Num_grid:
  assumes "rnd p = Num d"
  shows "isDouble d"
proof -
  have r: "- (2 ^ 1024) < p" "p < 2 ^ 1024" "d = nearest p" "d \<noteq> 2 ^ 1024" "d \<noteq> - (2 ^ 1024)"
    using assms by (auto simp: rnd_def Let_def split: if_splits)
  then have g: "d \<in> doubleGrid" using nearest_in_grid[of p] by simp
  then have "\<bar>d\<bar> \<le> 2 ^ 1024" by (rule grid_bound)
  with r(4,5) have "\<bar>d\<bar> < 2 ^ 1024" by (simp add: abs_le_iff abs_less_iff)
  with g show ?thesis by (simp add: isDouble_def)
qed

lemma rnd_double: "isDouble a \<Longrightarrow> rnd a = Num a"
  by (simp add: isDouble_def rnd_exact)

text \<open>A value between two finite doubles is rounded to a finite double between them.\<close>

lemma rnd_between:
  assumes "isDouble a" "isDouble b" "a \<le> p" "p \<le> b"
  shows "\<exists>d. rnd p = Num d \<and> a \<le> d \<and> d \<le> b \<and> isDouble d"
proof -
  have la: "js_le (Num a) (rnd p)" using rnd_mono[OF assms(3)] rnd_double[OF assms(1)] by simp
  have lb: "js_le (rnd p) (Num b)" using rnd_mono[OF assms(4)] rnd_double[OF assms(2)] by simp
  show ?thesis
  proof (cases "rnd p")
    case (Num d)
    then show ?thesis using la lb rnd_Num_grid[OF Num] by (simp add: js_le_def)
  next
    case PosInf
    then show ?thesis using lb by (simp add: js_le_def)
  next
    case NegInf
    then show ?thesis using la by (simp add: js_le_def)
  next
    case NaN
    then show ?thesis using rnd_not_NaN by blast
  qed
qed

lemma rnd_nonneg:
  assumes "0 \<le> p"
  shows "rnd p = PosInf \<or> (\<exists>d. rnd p = Num d \<and> 0 \<le> d \<and> isDouble d)"
proof -
  have z: "rnd 0 = Num 0"
    using doubleGridI[of 0 0] by (intro rnd_exact) simp_all
  have "js_le (Num 0) (rnd p)" using rnd_mono[OF assms] z by simp
  then show ?thesis
    using rnd_Num_grid[of p] by (cases "rnd p") (simp_all add: js_le_def)
qed

text \<open>Doubles to compute with: integers up to \<open>2^53\<close>, and such integers over a power of two.\<close>

lemma isDouble_int: "\<bar>m\<bar> \<le> 2 ^ 53 \<Longrightarrow> isDouble (real_of_int m)"
proof -
  assume m: "\<bar>m\<bar> \<le> 2 ^ 53"
  then have "real_of_int m * 2 powi 0 \<in> doubleGrid" by (intro doubleGridI) simp_all
  moreover have "\<bar>real_of_int m\<bar> \<le> 2 ^ 53"
    using m by (metis of_int_abs of_int_le_iff of_int_numeral of_int_power)
  then have "\<bar>real_of_int m\<bar> < 2 ^ 1024"
    by (rule order_le_less_trans) simp
  ultimately show ?thesis by (simp add: isDouble_def)
qed

lemma isDouble_nat:
  assumes "k \<le> 2 ^ 53"
  shows "isDouble (real k)"
proof -
  have "int k \<le> int (2 ^ 53)" using assms by (simp only: of_nat_le_iff)
  then have "\<bar>int k\<bar> \<le> 2 ^ 53" by simp
  from isDouble_int[OF this] show ?thesis by simp
qed

lemma isDouble_numeral: "numeral k \<le> (2 ^ 53 :: int) \<Longrightarrow> isDouble (numeral k)"
  using isDouble_int[of "numeral k"] by simp

lemma isDouble_0: "isDouble 0" and isDouble_1: "isDouble 1"
  using isDouble_int[of 0] isDouble_int[of 1] by simp_all

lemma isDouble_dyadic:
  assumes "\<bar>m\<bar> \<le> 2 ^ 53" "k \<le> 1074"
  shows "isDouble (real_of_int m / 2 ^ k)"
proof -
  have "real_of_int m * 2 powi (- int k) \<in> doubleGrid"
    using assms by (intro doubleGridI) simp_all
  moreover have e: "real_of_int m * 2 powi (- int k) = real_of_int m / 2 ^ k"
    by (simp add: power_int_minus field_simps)
  moreover have "\<bar>real_of_int m / 2 ^ k\<bar> \<le> \<bar>real_of_int m\<bar>"
  proof -
    have "(1 :: real) \<le> 2 ^ k" by simp
    then have "\<bar>real_of_int m\<bar> / 2 ^ k \<le> \<bar>real_of_int m\<bar> / 1"
      by (intro divide_left_mono) simp_all
    then show ?thesis by simp
  qed
  moreover have "\<bar>real_of_int m\<bar> \<le> 2 ^ 53"
    using assms(1) by (metis of_int_abs of_int_le_iff of_int_numeral of_int_power)
  ultimately show ?thesis by (simp add: isDouble_def)
qed

lemma rnd_numeral [simp]: "numeral k \<le> (2 ^ 53 :: int) \<Longrightarrow> rnd (numeral k) = Num (numeral k)"
  by (rule rnd_double) (rule isDouble_numeral)

lemma rnd_0 [simp]: "rnd 0 = Num 0" and rnd_1 [simp]: "rnd 1 = Num 1"
  by (simp_all add: rnd_double isDouble_0 isDouble_1)

lemma rnd_half [simp]: "rnd (1 / 2) = Num (1 / 2)"
  using isDouble_dyadic[of 1 1] by (simp add: rnd_double)

lemma rnd_quarter [simp]: "rnd (1 / 4) = Num (1 / 4)"
  using isDouble_dyadic[of 1 2] by (simp add: rnd_double)

lemma rnd_sixteenth [simp]: "rnd (1 / 16) = Num (1 / 16)"
  using isDouble_dyadic[of 1 4] by (simp add: rnd_double)

lemma rnd_overflow: "2 ^ 1024 \<le> p \<Longrightarrow> rnd p = PosInf"
  by (simp add: rnd_def)

text \<open>
  Between \<open>m / 2^k\<close> and \<open>(m + 1) / 2^k\<close>, for a significand \<open>m\<close> of 53 bits, there is no
  double: a value from \<open>m / 2^k\<close> up to the middle of the two is rounded to \<open>m / 2^k\<close>.
\<close>

lemma grid_gap:
  assumes "d \<in> doubleGrid" "2 ^ 52 \<le> m" "real_of_int m / 2 ^ k < d"
  shows "real_of_int (m + 1) / 2 ^ k \<le> d"
proof -
  from assms(1) obtain m' e where me: "\<bar>m'\<bar> \<le> 2 ^ 53" "d = real_of_int m' * 2 powi e"
    by (rule doubleGridE)
  have dk: "d * 2 ^ k = real_of_int m' * 2 powi (e + int k)"
    by (simp add: me(2) power_int_add)
  have lt: "real_of_int m < d * 2 ^ k"
    using assms(3) by (simp add: pos_divide_less_eq)
  show ?thesis
  proof (cases "0 \<le> e + int k")
    case True
    then have "2 powi (e + int k) = (2 :: real) ^ nat (e + int k)"
      by (simp add: power_int_def)
    then have eq: "d * 2 ^ k = real_of_int (m' * 2 ^ nat (e + int k))"
      using dk by simp
    have "m < m' * 2 ^ nat (e + int k)"
      using lt unfolding eq by (simp only: of_int_less_iff)
    then have "m + 1 \<le> m' * 2 ^ nat (e + int k)" by simp
    then have "real_of_int (m + 1) \<le> real_of_int (m' * 2 ^ nat (e + int k))"
      by (simp only: of_int_le_iff)
    then have "real_of_int (m + 1) \<le> d * 2 ^ k" by (simp only: eq)
    then show ?thesis by (simp add: pos_divide_le_eq)
  next
    case False
    define j where "j = nat (- (e + int k))"
    have j: "1 \<le> j" "e + int k = - int j" using False by (simp_all add: j_def)
    have "2 powi (e + int k) = 1 / (2 :: real) ^ j"
      unfolding j(2) by (simp add: power_int_minus field_simps)
    then have eq: "d * 2 ^ k = real_of_int m' / 2 ^ j" using dk by simp
    have "real_of_int m' \<le> real_of_int (2 ^ 53)"
      using me(1) by (intro of_int_le_iff[THEN iffD2]) simp
    then have m': "real_of_int m' \<le> 2 ^ 53" by simp
    have two: "(2 :: real) ^ 1 \<le> 2 ^ j" using j(1) by (intro power_increasing) simp_all
    have "real_of_int m' / 2 ^ j \<le> 2 ^ 53 / 2 ^ j"
      using m' by (intro divide_right_mono) simp_all
    also have "\<dots> \<le> 2 ^ 53 / (2 :: real) ^ 1"
      using two by (intro divide_left_mono) simp_all
    finally have "d * 2 ^ k \<le> 2 ^ 52" unfolding eq by simp
    moreover have "real_of_int (2 ^ 52) \<le> real_of_int m"
      using assms(2) by (simp only: of_int_le_iff)
    ultimately show ?thesis using lt by simp
  qed
qed

lemma rnd_down:
  assumes "2 ^ 52 \<le> m" "m < 2 ^ 53" "k \<le> 1074"
    and "real_of_int m / 2 ^ k \<le> p" and "2 * p < real_of_int (2 * m + 1) / 2 ^ k"
  shows "rnd p = Num (real_of_int m / 2 ^ k)"
proof -
  define l where "l = real_of_int m / 2 ^ k"
  define u where "u = real_of_int (m + 1) / 2 ^ k"
  have m1: "\<bar>m\<bar> \<le> 2 ^ 53" "\<bar>m + 1\<bar> \<le> 2 ^ 53" using assms(1,2) by simp_all
  have dl: "isDouble l" and du: "isDouble u"
    unfolding l_def u_def using isDouble_dyadic[OF m1(1) assms(3)] isDouble_dyadic[OF m1(2) assms(3)]
    by simp_all
  have gl: "l \<in> doubleGrid" and gu: "u \<in> doubleGrid" and bu: "u < 2 ^ 1024"
    using dl du by (simp_all add: isDouble_def abs_less_iff)
  have "0 \<le> real_of_int m" using assms(1) by simp
  then have l0: "0 \<le> l" by (simp add: l_def)
  have lp: "l \<le> p" using assms(4) by (simp add: l_def)
  have "real_of_int (2 * m + 1) / 2 ^ k = l + u"
    by (simp add: l_def u_def add_divide_distrib[symmetric])
  then have mid: "p - l < u - p" using assms(5) by simp
  then have pu: "p < u" using lp by linarith
  have b1: "- (2 ^ 1024) \<le> p" using l0 lp by (simp add: order_trans[of _ 0])
  have b2: "p \<le> 2 ^ 1024" using pu bu by linarith
  note lo = below_props[OF b1] and up = above_props[OF b2]
  show ?thesis
  proof (cases "p = l")
    case True
    then show ?thesis using rnd_double[OF dl] by (simp add: l_def)
  next
    case False
    then have "l < p" using lp by simp
    have "below p = l"
    proof (rule ccontr)
      assume "below p \<noteq> l"
      then have "l < below p" using lo(3)[OF gl lp] by simp
      then have "u \<le> below p"
        unfolding l_def u_def by (rule grid_gap[OF lo(1) assms(1)])
      then show False using lo(2) pu by linarith
    qed
    moreover have "above p = u"
    proof -
      have "l < above p" using \<open>l < p\<close> up(2) by linarith
      then have "u \<le> above p"
        unfolding l_def u_def by (rule grid_gap[OF up(1) assms(1)])
      moreover have "above p \<le> u" using up(3)[OF gu] pu by simp
      ultimately show ?thesis by simp
    qed
    ultimately have "nearest p = l" using mid by (simp add: nearest_def)
    moreover have "l < 2 ^ 1024" using lp pu bu by linarith
    ultimately show ?thesis
      using pu bu l0 b1 \<open>l < p\<close> by (simp add: rnd_def l_def[symmetric] not_le)
  qed
qed

text \<open>
  The division, the product and the square root of the 490 by 440 sheet with 11 frames, as
  the doubles they are rounded to.
\<close>

lemma rnd_49_44: "rnd (49 / 44) = Num (5015372312298961 / 2 ^ 52)"
  using rnd_down[of 5015372312298961 52 "49 / 44"] by simp

lemma rnd_11_times: "rnd (11 * (5015372312298961 / 2 ^ 52)) = Num (6896136929411071 / 2 ^ 49)"
  using rnd_down[of 6896136929411071 49 "11 * (5015372312298961 / 2 ^ 52)"] by simp

lemma rnd_sqrt_12: "rnd (sqrt (6896136929411071 / 2 ^ 49)) = Num (7881299347898367 / 2 ^ 51)"
proof -
  have lo: "7881299347898367 / 2 ^ 51 \<le> sqrt (6896136929411071 / 2 ^ 49)"
    by (rule real_le_rsqrt) (simp add: power2_eq_square)
  have "sqrt (6896136929411071 / 2 ^ 49) < 15762598695796735 / 2 ^ 52"
    by (rule real_less_lsqrt) (simp_all add: power2_eq_square)
  then have up: "2 * sqrt (6896136929411071 / 2 ^ 49) < real_of_int (2 * 7881299347898367 + 1) / 2 ^ 51"
    by simp
  show ?thesis
    using rnd_down[of 7881299347898367 51 "sqrt (6896136929411071 / 2 ^ 49)"] lo up by simp
qed

lemma columns_490_440_11: "computedColumns 490 440 11 = Num 3"
proof -
  have a: "js_div (Num 490) (Num 440) = Num (5015372312298961 / 2 ^ 52)"
    using rnd_49_44 by simp
  have b: "js_mul (Num 11) (Num (5015372312298961 / 2 ^ 52)) = Num (6896136929411071 / 2 ^ 49)"
    using rnd_11_times by simp
  have c: "js_sqrt (Num (6896136929411071 / 2 ^ 49)) = Num (7881299347898367 / 2 ^ 51)"
    using rnd_sqrt_12 by simp
  have "\<lfloor>(7881299347898367 :: real) / 2 ^ 51 + 1 / 2\<rfloor> = 3"
    by (intro floor_unique) simp_all
  then have d: "js_round (Num (7881299347898367 / 2 ^ 51)) = Num 3"
    by simp
  show ?thesis unfolding computedColumns_def a b c d by (rule refl)
qed

section \<open>Scale ratios: the largest frame\<close>

text \<open>
  The program's \<^verbatim>\<open><=\<close> orders the areas of pixel rectangles, the loop of
  \<open>processFrameArray\<close> finds the largest of them, and the ratio against it is monotone in
  the area and lies between 0 and 1.
\<close>

lemma nonNegative_cases:
  assumes "nonNegative n"
  obtains (Num) d where "n = Num d" "0 \<le> d" "isDouble d" | (PosInf) "n = PosInf"
  using assms by (cases n) (auto simp: nonNegative_def)

lemma js_le_refl: "nonNegative a \<Longrightarrow> js_le a a"
  by (cases a) (auto simp: js_le_def nonNegative_def)

lemma js_le_trans: "js_le a b \<Longrightarrow> js_le b c \<Longrightarrow> js_le a c"
  by (cases a; cases b; cases c) (auto simp: js_le_def)


lemma js_le_total: "nonNegative a \<Longrightarrow> nonNegative b \<Longrightarrow> js_le a b \<or> js_lt b a"
  by (cases a; cases b) (auto simp: js_le_def nonNegative_def)

lemma js_lt_le: "js_lt a b \<Longrightarrow> js_le a b"
  by (cases a; cases b) (auto simp: js_le_def)

lemma areaOf_pixel:
  assumes "pixelDims fr"
  shows "areaOf fr = rnd (exactArea fr)" "0 \<le> exactArea fr" "nonNegative (areaOf fr)"
proof -
  from assms obtain a b where ab: "FrameRect.w (HasFrame.frame fr) = Num a"
    "FrameRect.h (HasFrame.frame fr) = Num b" "0 \<le> a" "0 \<le> b"
    unfolding pixelDims_def
    by (cases "FrameRect.w (HasFrame.frame fr)"; cases "FrameRect.h (HasFrame.frame fr)") auto
  show 1: "areaOf fr = rnd (exactArea fr)" by (simp add: areaOf_def exactArea_def ab)
  show 2: "0 \<le> exactArea fr" by (simp add: exactArea_def ab)
  show "nonNegative (areaOf fr)" using rnd_nonneg[OF 2] by (auto simp: 1 nonNegative_def)
qed

text \<open>One pass of the loop keeps the larger of the two areas.\<close>

lemma largerOf_step:
  assumes "nonNegative (areaOf fr)" "nonNegative (Largest.area l)"
  shows "\<exists>l'. largerOf fr (Some l) = Some l'
           \<and> (Largest.area l' = Largest.area l \<or> Largest.area l' = areaOf fr)
           \<and> js_le (Largest.area l) (Largest.area l')
           \<and> js_le (areaOf fr) (Largest.area l')"
proof (cases "js_lt (Largest.area l) (areaOf fr)")
  case True
  then show ?thesis
    using assms by (simp add: largerOf_def Let_def js_gt_def areaOf_def[symmetric] js_lt_le js_le_refl)
next
  case False
  then have "js_le (areaOf fr) (Largest.area l)"
    using js_le_total[OF assms] by blast
  with False show ?thesis
    using assms by (simp add: largerOf_def Let_def js_gt_def areaOf_def[symmetric] js_le_refl)
qed

lemma fold_largerOf:
  assumes "\<forall>f\<in>set fs. nonNegative (areaOf f)" "nonNegative (Largest.area l)"
  shows "\<exists>l'. fold largerOf fs (Some l) = Some l'
           \<and> (Largest.area l' = Largest.area l \<or> (\<exists>f\<in>set fs. Largest.area l' = areaOf f))
           \<and> js_le (Largest.area l) (Largest.area l')
           \<and> (\<forall>f\<in>set fs. js_le (areaOf f) (Largest.area l'))"
  using assms
proof (induction fs arbitrary: l)
  case Nil
  then show ?case by (simp add: js_le_refl)
next
  case (Cons g fs)
  from Cons.prems obtain l1 where l1: "largerOf g (Some l) = Some l1"
    "Largest.area l1 = Largest.area l \<or> Largest.area l1 = areaOf g"
    "js_le (Largest.area l) (Largest.area l1)" "js_le (areaOf g) (Largest.area l1)"
    using largerOf_step[of g l] by auto
  have nn1: "nonNegative (Largest.area l1)" using l1(2) Cons.prems by auto
  from Cons.IH[OF _ nn1] Cons.prems(1)
  obtain l' where l': "fold largerOf fs (Some l1) = Some l'"
    "Largest.area l' = Largest.area l1 \<or> (\<exists>f\<in>set fs. Largest.area l' = areaOf f)"
    "js_le (Largest.area l1) (Largest.area l')" "\<forall>f\<in>set fs. js_le (areaOf f) (Largest.area l')"
    by auto
  have "fold largerOf (g # fs) (Some l) = Some l'" using l1(1) l'(1) by simp
  moreover have "Largest.area l' = Largest.area l \<or> (\<exists>f\<in>set (g # fs). Largest.area l' = areaOf f)"
    using l1(2) l'(2) by auto
  moreover have "js_le (Largest.area l) (Largest.area l')"
    using js_le_trans[OF l1(3) l'(3)] .
  moreover have "\<forall>f\<in>set (g # fs). js_le (areaOf f) (Largest.area l')"
    using js_le_trans[OF l1(4) l'(3)] l'(4) by simp
  ultimately show ?case by blast
qed

lemma findLargest_max:
  assumes "fs \<noteq> []" "\<forall>f\<in>set fs. nonNegative (areaOf f)"
  shows "\<exists>l. findLargest fs = Some l
           \<and> (\<exists>f\<in>set fs. Largest.area l = areaOf f)
           \<and> (\<forall>f\<in>set fs. js_le (areaOf f) (Largest.area l))"
proof (cases fs)
  case Nil
  with assms show ?thesis by simp
next
  case (Cons g gs)
  let ?first = "\<lparr>Largest.w = FrameRect.w (HasFrame.frame g),
                  h = FrameRect.h (HasFrame.frame g), area = areaOf g\<rparr>"
  have first: "largerOf g None = Some ?first"
    by (simp add: largerOf_def Let_def areaOf_def)
  have nn: "nonNegative (Largest.area ?first)" "\<forall>f\<in>set gs. nonNegative (areaOf f)"
    using assms(2) Cons by simp_all
  from fold_largerOf[OF nn(2) nn(1)]
  obtain l' where l': "fold largerOf gs (Some ?first) = Some l'"
    "Largest.area l' = Largest.area ?first \<or> (\<exists>f\<in>set gs. Largest.area l' = areaOf f)"
    "js_le (Largest.area ?first) (Largest.area l')" "\<forall>f\<in>set gs. js_le (areaOf f) (Largest.area l')"
    by blast
  have "findLargest fs = Some l'" using Cons first l'(1) by (simp add: findLargest_def)
  moreover have "\<exists>f\<in>set fs. Largest.area l' = areaOf f" using l'(2) Cons by auto
  moreover have "\<forall>f\<in>set fs. js_le (areaOf f) (Largest.area l')" using l'(3,4) Cons by simp
  ultimately show ?thesis by blast
qed

text \<open>The ratio of an area against a maximum.\<close>

lemma ratio_unit:
  assumes "nonNegative a" "nonNegative m" "js_le a m" "a \<noteq> m"
  shows "\<exists>s. js_sqrt (js_div a m) = Num s \<and> 0 \<le> s \<and> s \<le> 1"
proof -
  from assms(1) obtain d where d: "a = Num d" "0 \<le> d"
    using assms(2,3,4) by (cases a; cases m) (auto simp: nonNegative_def js_le_def)
  from assms(2) show ?thesis
  proof (cases rule: nonNegative_cases)
    case PosInf
    then show ?thesis by (simp add: d)
  next
    case (Num M)
    then have lt: "d < M" using assms(3,4) d by (simp add: js_le_def)
    then have M: "0 < M" using d by linarith
    have "0 \<le> d / M" "d / M \<le> 1" using lt M d by simp_all
    from rnd_between[OF isDouble_0 isDouble_1 this]
    obtain q where q: "rnd (d / M) = Num q" "0 \<le> q" "q \<le> 1" by blast
    have "0 \<le> sqrt q" "sqrt q \<le> 1" using q by simp_all
    from rnd_between[OF isDouble_0 isDouble_1 this]
    obtain s where "rnd (sqrt q) = Num s" "0 \<le> s" "s \<le> 1" by blast
    then show ?thesis using q M by (simp add: d Num not_less)
  qed
qed


lemma length_processFrameArray: "length (processFrameArray fs) = length fs"
  by (simp add: processFrameArray_def Let_def)

lemma spread_processFrameArray: "map spread (processFrameArray fs) = fs"
  by (simp add: processFrameArray_def Let_def comp_def)

lemma nth_processFrameArray:
  "i < length fs \<Longrightarrow>
     processFrameArray fs ! i =
       \<lparr>spread = fs ! i, scaleRatio = ratioAgainst (findLargest fs) (fs ! i)\<rparr>"
  by (simp add: processFrameArray_def Let_def)

lemma groupsOf_calculateScaleRatio:
  "groupsOf (calculateScaleRatio fr) = map processFrameArray (groupsOf fr)"
  by (cases fr) (auto simp: comp_def split_def)

lemma sqrt_sixteenth: "sqrt (1 / 16) = 1 / 4"
  by (rule real_sqrt_unique) (simp_all add: power2_eq_square)

lemma rnd_numeral_overflow [simp]: "(2 ^ 1024 :: real) \<le> numeral k \<Longrightarrow> rnd (numeral k) = PosInf"
  by (rule rnd_overflow)

lemma isDouble_numeral_simp [simp]: "numeral k \<le> (2 ^ 53 :: int) \<Longrightarrow> isDouble (numeral k)"
  by (rule isDouble_numeral)

text \<open>
  What the loop and the map of \<open>processFrameArray\<close> come to on an array of pixel
  rectangles: there is a largest computed area \<open>m\<close>, and every frame gets its ratio against
  it.
\<close>

lemma processFrameArray_ratios:
  assumes "fs \<noteq> []" "\<forall>f\<in>set fs. pixelDims f"
  shows "\<exists>m. nonNegative m \<and> (\<exists>f\<in>set fs. areaOf f = m) \<and> (\<forall>f\<in>set fs. js_le (areaOf f) m)
           \<and> (\<forall>i<length fs. scaleRatio (processFrameArray fs ! i) =
                  (if areaOf (fs ! i) = m then Num 1 else js_sqrt (js_div (areaOf (fs ! i)) m)))"
proof -
  have nn: "\<forall>f\<in>set fs. nonNegative (areaOf f)" using assms(2) areaOf_pixel(3) by blast
  from findLargest_max[OF assms(1) nn]
  obtain l where l: "findLargest fs = Some l" "\<exists>f\<in>set fs. Largest.area l = areaOf f"
    "\<forall>f\<in>set fs. js_le (areaOf f) (Largest.area l)" by blast
  have nm: "nonNegative (Largest.area l)" using l(2) nn by auto
  have "scaleRatio (processFrameArray fs ! i) =
          (if areaOf (fs ! i) = Largest.area l then Num 1
           else js_sqrt (js_div (areaOf (fs ! i)) (Largest.area l)))" if "i < length fs" for i
  proof -
    have "nonNegative (areaOf (fs ! i))" using nn that by simp
    then have "areaOf (fs ! i) \<noteq> NaN" by (auto simp: nonNegative_def)
    then show ?thesis
      using that l(1) by (simp add: nth_processFrameArray ratioAgainst_def Let_def js_eq_def
          areaOf_def[symmetric])
  qed
  then show ?thesis using l(2,3) nm by (intro exI[of _ "Largest.area l"]) auto
qed

section \<open>Scale ratios: the properties\<close>

text \<open>
  After an overflow: the area of a \<open>2^600\<close> by \<open>2^600\<close> frame is infinite, the frame gets the
  ratio 1, and the 1 by 1 frame beside it gets \<open>sqrt(1 / Infinity) = 0\<close>.
\<close>

lemma overflow_ratio_example:
  "map scaleRatio (processFrameArray [square (2 ^ 600), square 1]) = [Num 1, Num 0]"
  by (simp add: processFrameArray_def findLargest_def largerOf_def ratioAgainst_def
      js_gt_def js_eq_def areaOf_def square_def Let_def)

text \<open>
  Claim C1, as the code has it. Take any array that \<open>calculateScaleRatio\<close> normalises (the
  argument itself, or the array under one key of a record) whose frames are pixel
  rectangles, and any frame of it. The frame is kept. Among the areas \<open>w*h\<close> of the array,
  as the program computes them in doubles, there is a largest one \<open>m\<close>; a frame whose area
  equals \<open>m\<close> gets the ratio 1, and every other frame gets \<^verbatim>\<open>Math.sqrt(area / m)\<close>, the
  division and the square root rounded as the program rounds them. The ratio is a finite
  number in \<open>[0, 1]\<close>. It is not always in the interval \<open>(0, 1]\<close> of the claim: a frame of
  area zero beside a larger one gets 0 (the counterexample below), and so does every
  frame of finite area beside one whose area overflows (\<open>overflow_ratio_example\<close>).
\<close>

theorem scaleRatio_of_bucket:
  assumes "j < length (groupsOf fr)"
    and "\<forall>f\<in>set (groupsOf fr ! j). pixelDims f"
    and "i < length (groupsOf fr ! j)"
  shows "let fs = groupsOf fr ! j;
             out = groupsOf (calculateScaleRatio fr) ! j;
             a = areaOf (fs ! i);
             r = scaleRatio (out ! i)
         in spread (out ! i) = fs ! i
            \<and> (\<exists>m. (\<exists>f\<in>set fs. areaOf f = m) \<and> (\<forall>f\<in>set fs. js_le (areaOf f) m)
                   \<and> (a = m \<longrightarrow> r = Num 1)
                   \<and> (a \<noteq> m \<longrightarrow> r = js_sqrt (js_div a m)))
            \<and> is_finite r \<and> 0 \<le> real_of r \<and> real_of r \<le> 1"
proof -
  define fs where "fs = groupsOf fr ! j"
  have out: "groupsOf (calculateScaleRatio fr) ! j = processFrameArray fs"
    using assms(1) by (simp add: groupsOf_calculateScaleRatio fs_def)
  have px: "\<forall>f\<in>set fs. pixelDims f" and i: "i < length fs"
    using assms(2,3) by (simp_all add: fs_def)
  have ne: "fs \<noteq> []" using i by auto
  from processFrameArray_ratios[OF ne px]
  obtain m where m: "nonNegative m" "\<exists>f\<in>set fs. areaOf f = m" "\<forall>f\<in>set fs. js_le (areaOf f) m"
    "\<forall>i<length fs. scaleRatio (processFrameArray fs ! i) =
        (if areaOf (fs ! i) = m then Num 1 else js_sqrt (js_div (areaOf (fs ! i)) m))"
    by blast
  have r: "scaleRatio (processFrameArray fs ! i) =
             (if areaOf (fs ! i) = m then Num 1 else js_sqrt (js_div (areaOf (fs ! i)) m))"
    using m(4) i by blast
  have mem: "fs ! i \<in> set fs" using i by simp
  have na: "nonNegative (areaOf (fs ! i))" using px mem areaOf_pixel(3) by blast
  have le: "js_le (areaOf (fs ! i)) m" using m(3) mem by blast
  have unit: "\<exists>s. scaleRatio (processFrameArray fs ! i) = Num s \<and> 0 \<le> s \<and> s \<le> 1"
  proof (cases "areaOf (fs ! i) = m")
    case True
    then show ?thesis using r by simp
  next
    case False
    then show ?thesis using r ratio_unit[OF na m(1) le False] by simp
  qed
  have sp: "spread (processFrameArray fs ! i) = fs ! i"
    using i by (simp add: nth_processFrameArray)
  have "\<exists>m. (\<exists>f\<in>set fs. areaOf f = m) \<and> (\<forall>f\<in>set fs. js_le (areaOf f) m)
          \<and> (areaOf (fs ! i) = m \<longrightarrow> scaleRatio (processFrameArray fs ! i) = Num 1)
          \<and> (areaOf (fs ! i) \<noteq> m \<longrightarrow>
               scaleRatio (processFrameArray fs ! i) = js_sqrt (js_div (areaOf (fs ! i)) m))"
    using m(2,3) r by (intro exI[of _ m]) simp
  then show ?thesis
    unfolding Let_def out fs_def[symmetric] using sp unit by auto
qed

text \<open>
  Two animations normalised independently: a frame of area 2500 gets 1/2 against its
  animation's largest frame of area 10000, and 1/4 against the other's of area 40000.
\<close>

theorem scaleRatio_of_bucket_witness:
  "scaleRatio (groupsOf (calculateScaleRatio
       (Record [(''close'', [square 100, square 50]), (''wide'', [square 200, square 50])])) ! 0 ! 1)
     = Num (1 / 2)
   \<and> scaleRatio (groupsOf (calculateScaleRatio
       (Record [(''close'', [square 100, square 50]), (''wide'', [square 200, square 50])])) ! 1 ! 1)
     = Num (1 / 4)"
  using
    scaleRatio_of_bucket
      [of 0 "Record [(''close'', [square 100, square 50]), (''wide'', [square 200, square 50])]" 1]
    scaleRatio_of_bucket
      [of 1 "Record [(''close'', [square 100, square 50]), (''wide'', [square 200, square 50])]" 1]
  by (simp add: Let_def processFrameArray_def findLargest_def largerOf_def ratioAgainst_def
      js_gt_def js_eq_def areaOf_def square_def pixelDims_def real_sqrt_divide sqrt_sixteenth)

text \<open>
  The counterexample to C1 as stated: a frame of width and height 0 in an array with a
  10 by 10 frame is assigned \<open>sqrt(0 / 100) = 0\<close>, which is not in \<open>(0, 1]\<close>.
\<close>

theorem zero_area_counterexample:
  "scaleRatio (groupsOf (calculateScaleRatio (Array [square 0, square 10])) ! 0 ! 0) = Num 0
   \<and> \<not> 0 < real_of (scaleRatio (groupsOf (calculateScaleRatio (Array [square 0, square 10])) ! 0 ! 0))"
  by (simp add: processFrameArray_def findLargest_def largerOf_def ratioAgainst_def js_gt_def
      js_eq_def square_def Let_def)




text \<open>
  Claim C10: \<open>calculateScaleRatio\<close> returns its argument with a ratio added to each frame and
  nothing else changed. Dropping the ratios (\<open>spread\<close> is the frame as it was passed in, with
  all its fields) gives back the argument: the same array or the same keys, the same number
  of frames in the same order. This holds for the empty array too. The function is pure, so
  the frames passed in are not changed.
\<close>

theorem calculateScaleRatio_keeps_frames:
  "map_Frames spread (calculateScaleRatio fr) = fr
   \<and> map length (groupsOf (calculateScaleRatio fr)) = map length (groupsOf fr)
   \<and> calculateScaleRatio (Array []) = Array []"
  by (cases fr)
     (auto simp: spread_processFrameArray length_processFrameArray comp_def split_def
        processFrameArray_def intro: map_idI)

section \<open>Counting loops: when they end\<close>

text \<open>A loop up to \<open>PosInf\<close> returns nothing, whatever its body does.\<close>

lemma forLoop_PosInf: "forLoop PosInf body i s = None"
proof -
  have "bound \<noteq> PosInf" if "forLoop bound body i s = Some y" for bound y
  proof (rule forLoop.raw_induct [where P = "\<lambda>bound body i s y. bound \<noteq> PosInf", OF _ that])
    fix loop :: "number \<Rightarrow> (nat \<Rightarrow> 'a \<Rightarrow> 'a option) \<Rightarrow> nat \<Rightarrow> 'a \<Rightarrow> 'a option"
      and bound body i s y
    assume IH: "\<And>bound body i s y. loop bound body i s = Some y \<Longrightarrow> bound \<noteq> PosInf"
      and eq: "(if js_lt (Num (real i)) bound
                then Option.bind (body i s) (loop bound body (Suc i))
                else Some s) = Some y"
    show "bound \<noteq> PosInf"
    proof (cases "js_lt (Num (real i)) bound")
      case True
      with eq obtain s' where "loop bound body (Suc i) s' = Some y"
        by (auto simp: bind_eq_Some_conv)
      then show ?thesis by (rule IH)
    next
      case False
      then show ?thesis by auto
    qed
  qed
  then show ?thesis by (cases "forLoop PosInf body i s") auto
qed

lemma lt_bound_iff: "js_lt (Num (real i)) (Num r) \<longleftrightarrow> i < nat \<lceil>r\<rceil>"
proof -
  have "i < nat \<lceil>r\<rceil> \<longleftrightarrow> int i < \<lceil>r\<rceil>" by (simp add: zless_nat_eq_int_zless)
  also have "\<dots> \<longleftrightarrow> real_of_int (int i) < r" by (rule less_ceiling_iff)
  finally show ?thesis by simp
qed

text \<open>
  A loop up to a finite bound whose body returns at every index below the bound is a fold
  over the indices.
\<close>

lemma forLoop_Num:
  assumes "\<And>k t. k < nat \<lceil>r\<rceil> \<Longrightarrow> body k t = Some (f k t)"
  shows "forLoop (Num r) body i s = Some (fold f [i..<nat \<lceil>r\<rceil>] s)"
proof (induction "nat \<lceil>r\<rceil> - i" arbitrary: i s)
  case 0
  then have "\<not> i < nat \<lceil>r\<rceil>" by linarith
  then have c: "js_lt (Num (real i)) (Num r) = False" by (simp only: lt_bound_iff)
  have e: "[i..<nat \<lceil>r\<rceil>] = []" using 0 by (intro upt_conv_Nil) linarith
  show ?case by (subst forLoop.simps) (simp only: c if_False e fold_simps)
next
  case (Suc d)
  then have lt: "i < nat \<lceil>r\<rceil>" by linarith
  have d: "d = nat \<lceil>r\<rceil> - Suc i" using Suc.hyps(2) by linarith
  have c: "js_lt (Num (real i)) (Num r) = True" using lt by (simp only: lt_bound_iff)
  show ?case
    by (subst forLoop.simps)
       (simp only: c if_True assms[OF lt] Option.bind.simps Suc.hyps(1)[OF d] upt_conv_Cons[OF lt]
          fold_simps)
qed

lemma fold_push_if:
  "fold (\<lambda>k acc. if P k then acc @ [g k] else acc) ks acc = acc @ map g (filter P ks)"
  by (induction ks arbitrary: acc) simp_all

lemma fold_cong_set:
  "(\<And>k t. k \<in> set ks \<Longrightarrow> f k t = f' k t) \<Longrightarrow> fold f ks s = fold f' ks s"
  by (induction ks arbitrary: s) simp_all

lemma fold_fold_push_if:
  "fold (\<lambda>r acc. fold (\<lambda>k acc. if P r k then acc @ [g r k] else acc) ks acc) rs acc
     = acc @ concat (map (\<lambda>r. map (g r) (filter (P r) ks)) rs)"
  by (induction rs arbitrary: acc) (simp_all add: fold_push_if)

text \<open>Two nested loops over rows and columns that push for some of the cells.\<close>

lemma nested_loops:
  assumes "\<And>r c t. r < R \<Longrightarrow> c < C \<Longrightarrow> body r c t = Some (if P r c then t @ [g r c] else t)"
  shows "forLoop (Num (real R)) (\<lambda>r. forLoop (Num (real C)) (body r) 0) 0 []
           = Some (concat (map (\<lambda>r. map (g r) (filter (P r) [0..<C])) [0..<R]))"
proof -
  have inner: "forLoop (Num (real C)) (body r) 0 t
                 = Some (fold (\<lambda>c t. if P r c then t @ [g r c] else t) [0..<C] t)"
    if "r < R" for r t
    using forLoop_Num[of "real C" "body r" "\<lambda>c t. if P r c then t @ [g r c] else t" 0 t]
      assms[OF that]
    by simp
  have "forLoop (Num (real R)) (\<lambda>r. forLoop (Num (real C)) (body r) 0) 0 []
          = Some (fold (\<lambda>r t. fold (\<lambda>c t. if P r c then t @ [g r c] else t) [0..<C] t) [0..<R] [])"
    using forLoop_Num[of "real R" "\<lambda>r. forLoop (Num (real C)) (body r) 0"
        "\<lambda>r t. fold (\<lambda>c t. if P r c then t @ [g r c] else t) [0..<C] t" 0 "[]"] inner
    by simp
  then show ?thesis by (simp add: fold_fold_push_if)
qed

lemma nested_loops_map:
  assumes "\<And>r c t. r < R \<Longrightarrow> c < C \<Longrightarrow> body r c t
             = Some (if Q \<lparr>row = r, col = c\<rparr> then t @ [f \<lparr>row = r, col = c\<rparr>] else t)"
  shows "forLoop (Num (real R)) (\<lambda>r. forLoop (Num (real C)) (body r) 0) 0 []
           = Some (map f (filter Q (gridCells R C)))"
  using nested_loops[of R C body "\<lambda>r c. Q \<lparr>row = r, col = c\<rparr>" "\<lambda>r c. f \<lparr>row = r, col = c\<rparr>"]
    assms
  by (simp add: gridCells_def filter_concat filter_map comp_def map_concat)

lemma nested_loops_cells:
  assumes "\<And>r c t. r < R \<Longrightarrow> c < C \<Longrightarrow> body r c t
             = Some (if Q \<lparr>row = r, col = c\<rparr> then t @ [\<lparr>row = r, col = c\<rparr>] else t)"
  shows "forLoop (Num (real R)) (\<lambda>r. forLoop (Num (real C)) (body r) 0) 0 []
           = Some (filter Q (gridCells R C))"
  using nested_loops_map[of R C body Q "\<lambda>cell. cell"] assms by simp



section \<open>Empty frames\<close>



lemma checkIfFrameIsEmpty_one_pixel: "checkIfFrameIsEmpty [r, g, b, a] \<longleftrightarrow> a = 0"
  by (simp add: checkIfFrameIsEmpty_def checkFrom.simps[of 3] checkFrom.simps[of 7])


section \<open>Grid inference: what is returned\<close>

text \<open>
  The number of rows, \<^verbatim>\<open>Math.round(totalFrames / cols)\<close>, for a positive frame count and at
  least one column: the quotient rounds to a double between 0 and the frame count, so the
  number of rows is a natural number, at most the frame count plus a half.
\<close>

lemma computed_rows:
  assumes "isDouble n" "0 < n" "0 < C"
  shows "\<exists>R. js_round (js_div (Num n) (Num (real C))) = Num (real R) \<and> real R \<le> n + 1 / 2"
proof -
  have one: "1 \<le> real C" using assms(3) by simp
  have "n / real C \<le> n / 1" using assms(2) one by (intro divide_left_mono) simp_all
  then have up: "n / real C \<le> n" by simp
  have lo: "0 \<le> n / real C" using assms(2) by simp
  from rnd_between[OF isDouble_0 assms(1) lo up]
  obtain q where q: "rnd (n / real C) = Num q" "0 \<le> q" "q \<le> n" by blast
  have dv: "js_div (Num n) (Num (real C)) = Num q" using assms(3) q(1) by simp
  have nn: "0 \<le> \<lfloor>q + 1 / 2\<rfloor>" using q(2) by simp
  have e: "real (nat \<lfloor>q + 1 / 2\<rfloor>) = of_int \<lfloor>q + 1 / 2\<rfloor>" using nn by simp
  have "of_int \<lfloor>q + 1 / 2\<rfloor> \<le> q + 1 / 2" by (rule of_int_floor_le)
  then have "real (nat \<lfloor>q + 1 / 2\<rfloor>) \<le> n + 1 / 2" using q(3) e by linarith
  moreover have "js_round (js_div (Num n) (Num (real C))) = Num (real (nat \<lfloor>q + 1 / 2\<rfloor>))"
    unfolding dv using e by simp
  ultimately show ?thesis by blast
qed

text \<open>
  The index \<^verbatim>\<open>row * cols + col\<close> of a cell is computed without rounding as long as the grid
  has at most \<open>2^53\<close> cells.
\<close>

lemma frameIndex_exact:
  assumes "real R * real C \<le> 2 ^ 53" "r < R" "c < C"
  shows "js_add (js_mul (Num (real r)) (Num (real C))) (Num (real c)) = Num (real (r * C + c))"
proof -
  have "Suc r * C \<le> R * C" using assms(2) by (intro mult_le_mono1) simp
  then have lt: "r * C + c < R * C" using assms(3) by simp
  have "real (R * C) \<le> 2 ^ 53" using assms(1) by simp
  then have "real (R * C) \<le> real ((2 :: nat) ^ 53)" by simp
  then have b: "R * C \<le> 2 ^ 53" by (simp only: of_nat_le_iff)
  have b1: "r * C \<le> 2 ^ 53" and b2: "r * C + c \<le> 2 ^ 53" using lt b by simp_all
  have m: "js_mul (Num (real r)) (Num (real C)) = Num (real (r * C))"
    using rnd_double[OF isDouble_nat[OF b1]] by simp
  have a: "rnd (real (r * C) + real c) = Num (real (r * C + c))"
    using rnd_double[OF isDouble_nat[OF b2]] by simp
  show ?thesis unfolding m using a by simp
qed

text \<open>
  The result of \<open>getRowsAndColumns\<close> whenever the number of columns it computes is a
  positive natural number \<open>C\<close>: the loops end, and the cells marked empty are the padding
  cells and the transparent ones, in row-major order.
\<close>

lemma getRowsAndColumns_grid:
  assumes img: "image texture = Some img"
    and dims: "width img = Num W" "height img = Num H"
    and n: "isDouble n" "0 < n"
    and cols: "computedColumns W H n = Num (real C)" "0 < C"
    and small: "real C * (n + 1) \<le> 2 ^ 53"
  shows "\<exists>R. js_round (js_div (Num n) (Num (real C))) = Num (real R)
           \<and> getRowsAndColumns (Some ctx) texture (Num n) =
               Some (Inr \<lparr>rows = Num (real R), columns = Num (real C),
                          frameWidth = js_div (Num W) (Num (real C)),
                          frameHeight = js_div (Num H) (Num (real R)),
                          emptyFrames =
                            filter (\<lambda>cell. n \<le> real (row cell * C + col cell)
                                      \<or> checkIfFrameIsEmpty
                                           (cellData ctx (js_div (Num W) (Num (real C)))
                                              (js_div (Num H) (Num (real R))) cell))
                              (gridCells R C)\<rparr>)"
proof -
  from computed_rows[OF n cols(2)]
  obtain R where R: "js_round (js_div (Num n) (Num (real C))) = Num (real R)"
    "real R \<le> n + 1 / 2" by blast
  have "real R * real C \<le> (n + 1) * real C" using R(2) by (intro mult_right_mono) simp_all
  then have cells: "real R * real C \<le> 2 ^ 53" using small by (simp add: mult.commute)
  have c: "js_round (js_sqrt (js_mul (Num n) (js_div (Num W) (Num H)))) = Num (real C)"
    using cols(1) by (simp only: computedColumns_def)
  define fw where "fw = js_div (Num W) (Num (real C))"
  define fh where "fh = js_div (Num H) (Num (real R))"
  have loops:
    "forLoop (Num (real R))
       (\<lambda>r. forLoop (Num (real C))
          (\<lambda>c emptyFrames.
             if js_ge (js_add (js_mul (Num (real r)) (Num (real C))) (Num (real c))) (Num n)
             then Some (emptyFrames @ [\<lparr>row = r, col = c\<rparr>])
             else Some (if checkIfFrameIsEmpty
                             (getImageData ctx (js_mul (Num (real c)) fw)
                                (js_mul (Num (real r)) fh) fw fh)
                        then emptyFrames @ [\<lparr>row = r, col = c\<rparr>]
                        else emptyFrames))
          0)
       0 []
     = Some (filter (\<lambda>cell. n \<le> real (row cell * C + col cell)
                       \<or> checkIfFrameIsEmpty (cellData ctx fw fh cell)) (gridCells R C))"
  proof (rule nested_loops_cells)
    fix r c t
    assume "r < R" "c < C"
    from frameIndex_exact[OF cells this]
    show "(if js_ge (js_add (js_mul (Num (real r)) (Num (real C))) (Num (real c))) (Num n)
           then Some (t @ [\<lparr>row = r, col = c\<rparr>])
           else Some (if checkIfFrameIsEmpty
                           (getImageData ctx (js_mul (Num (real c)) fw)
                              (js_mul (Num (real r)) fh) fw fh)
                      then t @ [\<lparr>row = r, col = c\<rparr>] else t))
          = Some (if n \<le> real (row \<lparr>row = r, col = c\<rparr> * C + col \<lparr>row = r, col = c\<rparr>)
                     \<or> checkIfFrameIsEmpty (cellData ctx fw fh \<lparr>row = r, col = c\<rparr>)
                  then t @ [\<lparr>row = r, col = c\<rparr>] else t)"
      by (simp add: js_ge_def cellData_def not_less del: js_div.simps js_mul.simps js_add.simps)
  qed
  have "getRowsAndColumns (Some ctx) texture (Num n) =
          Some (Inr \<lparr>rows = Num (real R), columns = Num (real C), frameWidth = fw,
                     frameHeight = fh,
                     emptyFrames =
                       filter (\<lambda>cell. n \<le> real (row cell * C + col cell)
                                 \<or> checkIfFrameIsEmpty (cellData ctx fw fh cell))
                         (gridCells R C)\<rparr>)"
    apply (simp only: getRowsAndColumns_def img option.case Let_def dims c R(1))
    apply (simp only: fw_def[symmetric] fh_def[symmetric] loops)
    apply simp
    done
  then show ?thesis using R(1) unfolding fw_def fh_def by blast
qed

lemma sqrt_100: "sqrt 100 = 10"
  by (rule real_sqrt_unique) (simp_all add: power2_eq_square)








text \<open>
  A sheet on which rounding decides the grid: 490 by 440 with 11 frames. The exact value of
  \<open>sqrt(11 * 490 / 440)\<close> is \<open>3.5\<close>, which would round to 4 columns; the program divides
  first, and the rounded quotient gives a square root just below \<open>3.5\<close>: 3 columns and 4
  rows, with cell \<open>(3, 2)\<close> as the one padding cell.
\<close>

lemma rows_11_3: "js_round (js_div (Num 11) (Num 3)) = Num 4"
proof -
  have d1: "isDouble (7 / 2)" using isDouble_dyadic[of 7 1] by simp
  have d2: "isDouble 4" by simp
  from rnd_between[OF d1 d2, of "11 / 3"]
  obtain d where d: "rnd (11 / 3) = Num d" "7 / 2 \<le> d" "d \<le> 4" by auto
  have "\<lfloor>d + 1 / 2\<rfloor> = 4" using d(2,3) by (intro floor_unique) simp_all
  then show ?thesis using d(1) by simp
qed

lemma gridCells_4_3:
  "gridCells 4 3 =
     [\<lparr>row = 0, col = 0\<rparr>, \<lparr>row = 0, col = 1\<rparr>, \<lparr>row = 0, col = 2\<rparr>,
      \<lparr>row = 1, col = 0\<rparr>, \<lparr>row = 1, col = 1\<rparr>, \<lparr>row = 1, col = 2\<rparr>,
      \<lparr>row = 2, col = 0\<rparr>, \<lparr>row = 2, col = 1\<rparr>, \<lparr>row = 2, col = 2\<rparr>,
      \<lparr>row = 3, col = 0\<rparr>, \<lparr>row = 3, col = 1\<rparr>, \<lparr>row = 3, col = 2\<rparr>]"
  by (simp add: gridCells_def upt_conv_Cons numeral_eq_Suc)

lemma grid_490_440_11:
  "\<exists>g. getRowsAndColumns (Some opaqueContext) (sheet 490 440) (Num 11) = Some (Inr g)
        \<and> rows g = Num 4 \<and> columns g = Num 3 \<and> frameHeight g = Num 110
        \<and> emptyFrames g = [\<lparr>row = 3, col = 2\<rparr>]"
proof -
  from getRowsAndColumns_grid
    [of "sheet 490 440" "\<lparr>width = Num 490, height = Num 440\<rparr>" 490 440 11 3 opaqueContext]
  obtain R where R: "js_round (js_div (Num 11) (Num (real 3))) = Num (real R)"
    "getRowsAndColumns (Some opaqueContext) (sheet 490 440) (Num 11) =
       Some (Inr \<lparr>rows = Num (real R), columns = Num (real 3),
                  frameWidth = js_div (Num 490) (Num (real 3)),
                  frameHeight = js_div (Num 440) (Num (real R)),
                  emptyFrames =
                    filter (\<lambda>cell. 11 \<le> real (row cell * 3 + col cell)
                              \<or> checkIfFrameIsEmpty
                                   (cellData opaqueContext (js_div (Num 490) (Num (real 3)))
                                      (js_div (Num 440) (Num (real R))) cell))
                      (gridCells R 3)\<rparr>)"
    by (auto simp: sheet_def columns_490_440_11)
  have "Num (real R) = Num 4" using R(1) rows_11_3 by simp
  then have "real R = 4" by simp
  then have "R = 4" by linarith
  moreover have "js_div (Num 440) (Num 4) = Num 110" by simp
  ultimately show ?thesis
    using R(2)
    by (simp add: gridCells_4_3 opaqueContext_def cellData_def checkIfFrameIsEmpty_one_pixel
        del: js_div.simps)
qed

section \<open>Grid inference: the properties\<close>

text \<open>
  Claim C2 says that grid inference yields \<open>columns\<close>, \<open>rows\<close>, \<open>frameWidth\<close> and
  \<open>frameHeight\<close> for every image of positive width and height and every positive frame
  count. Lemma \<open>getRowsAndColumns_grid\<close> above is that statement for the inputs whose
  computed number of columns is at least 1, and \<open>grid_512_256_8\<close> is the example. For a tall
  image with few frames the number of columns rounds to 0: with width 64, height 1024 and
  one frame, \<open>cols = round(sqrt(1/16)) = 0\<close>, \<open>rows = round(1/0)\<close> is infinite, and the loop
  \<^verbatim>\<open>for (let row = 0; row < rows; row++)\<close> never ends. The function returns nothing.
\<close>

theorem getRowsAndColumns_diverges:
  "getRowsAndColumns (Some ctx) \<lparr>image = Some \<lparr>width = Num 64, height = Num 1024\<rparr>\<rparr> (Num 1)
     = None"
  by (simp add: getRowsAndColumns_def sqrt_sixteenth forLoop_PosInf)





text \<open>
  Claim C5: for a texture without an image, \<open>getRowsAndColumns\<close> returns the grid of zeros
  with no empty cells. It does so for every frame count, and before it asks for a 2D context,
  so no error is raised even when no context is to be had.
\<close>

theorem getRowsAndColumns_no_image:
  "getRowsAndColumns canvasContext \<lparr>image = None\<rparr> totalFrames =
     Some (Inr \<lparr>rows = Num 0, columns = Num 0, frameWidth = Num 0, frameHeight = Num 0,
                emptyFrames = []\<rparr>)"
  by (simp add: getRowsAndColumns_def)

section \<open>The manifest of a bare image: the property\<close>

lemma excluded_iff:
  "list_ex (\<lambda>coord. row coord = r \<and> col coord = c) cells \<longleftrightarrow> \<lparr>row = r, col = c\<rparr> \<in> set cells"
  by (induction cells) auto

lemma nonJsonFrames_cells:
  assumes "rows g = Num (real R)" and "columns g = Num (real C)"
  shows "nonJsonFrames g =
           Some (map (gridFrame (frameWidth g) (frameHeight g))
                   (filter (\<lambda>cell. cell \<notin> set (emptyFrames g)) (gridCells R C)))"
  unfolding nonJsonFrames_def Let_def assms
  by (rule nested_loops_map) (simp add: excluded_iff gridFrame_def del: js_mul.simps)

text \<open>
  Claim C9: from a grid of \<open>R\<close> rows and \<open>C\<close> columns the loops of \<^verbatim>\<open>parseSpriteData\<close> return
  one frame for each cell that is not in \<open>emptyFrames\<close>, in row-major order, and the frame of
  cell \<open>(r, c)\<close> has \<open>x = c * frameWidth\<close>, \<open>y = r * frameHeight\<close>, \<open>w = frameWidth\<close>,
  \<open>h = frameHeight\<close> and the source size \<open>frameWidth\<close> by \<open>frameHeight\<close>.
\<close>

theorem nonJsonFrames_row_major:
  assumes "rows g = Num (real R)" and "columns g = Num (real C)"
  shows "nonJsonFrames g =
           Some (map (gridFrame (frameWidth g) (frameHeight g))
                   (filter (\<lambda>cell. cell \<notin> set (emptyFrames g)) (gridCells R C)))
         \<and> HasFrame.frame (gridFrame (frameWidth g) (frameHeight g) \<lparr>row = r, col = c\<rparr>)
             = \<lparr>FrameRect.x = js_mul (Num (real c)) (frameWidth g),
                y = js_mul (Num (real r)) (frameHeight g),
                w = frameWidth g, h = frameHeight g\<rparr>
         \<and> FrameData.sourceSize (gridFrame (frameWidth g) (frameHeight g) \<lparr>row = r, col = c\<rparr>)
             = \<lparr>Size.w = frameWidth g, h = frameHeight g\<rparr>"
  using nonJsonFrames_cells[OF assms] by (simp add: gridFrame_def)

text \<open>A 2 by 2 grid of 10 by 20 frames with cell \<open>(0, 1)\<close> empty: three frames.\<close>

theorem nonJsonFrames_row_major_witness:
  "map (\<lambda>fd. (FrameRect.x (HasFrame.frame fd), FrameRect.y (HasFrame.frame fd)))
     (the (nonJsonFrames \<lparr>rows = Num 2, columns = Num 2, frameWidth = Num 10,
                          frameHeight = Num 20, emptyFrames = [\<lparr>row = 0, col = 1\<rparr>]\<rparr>))
   = [(Num 0, Num 0), (Num 0, Num 20), (Num 10, Num 20)]
   \<and> nonJsonFrames \<lparr>rows = Num 2, columns = Num 2, frameWidth = Num 10,
                     frameHeight = Num 20, emptyFrames = [\<lparr>row = 0, col = 1\<rparr>]\<rparr>
     = Some [gridFrame (Num 10) (Num 20) \<lparr>row = 0, col = 0\<rparr>,
             gridFrame (Num 10) (Num 20) \<lparr>row = 1, col = 0\<rparr>,
             gridFrame (Num 10) (Num 20) \<lparr>row = 1, col = 1\<rparr>]"
  using nonJsonFrames_row_major
    [of "\<lparr>rows = Num 2, columns = Num 2, frameWidth = Num 10, frameHeight = Num 20,
          emptyFrames = [\<lparr>row = 0, col = 1\<rparr>]\<rparr>" 2 2]
  by (simp add: gridCells_def upt_conv_Cons numeral_eq_Suc gridFrame_def)

section \<open>Grouping: the loops as filters\<close>

lemma spriteItem_bucketItem: "spriteItem fd = bucketItem fd"
  by (simp add: spriteItem_def bucketItem_def Let_def)
















text \<open>Matching ignores case, and a frame without a \<^verbatim>\<open>filename\<close> is in no animation.\<close>

lemma grouping_array_form_example:
  "\<exists>sprites.
     parseFrames (Some [''run'', ''Jump''])
       (Some \<lparr>frames = ArrayForm [(square 1)\<lparr>filename := Some ''Run_1.png''\<rparr>,
                                  (square 2)\<lparr>filename := Some ''RUNNING_2.png''\<rparr>,
                                  (square 3)\<lparr>filename := Some ''jump_1.png''\<rparr>,
                                  square 4]\<rparr>)
       = Inr (Some (Sprites sprites))
     \<and> map_option elements (sprites ''run'')
         = Some [bucketItem ((square 1)\<lparr>filename := Some ''Run_1.png''\<rparr>),
                 bucketItem ((square 2)\<lparr>filename := Some ''RUNNING_2.png''\<rparr>)]
     \<and> map_option elements (sprites ''Jump'')
         = Some [bucketItem ((square 3)\<lparr>filename := Some ''jump_1.png''\<rparr>)]"
  by (simp add: parseFrames_def scaleAnimations_def setProperty_def withScaleRatios_def
      arrayGroup_def nameMatches_def indexOf_def toLowerCase_def lowerChar_def isCapital_def
      char_of_def bit_iff_odd square_def spriteItem_bucketItem)

section \<open>Grouping: the properties\<close>




text \<open>
  Claim C7, as the code has it: when the list of names is absent (\<^verbatim>\<open>null\<close> or \<^verbatim>\<open>undefined\<close>),
  \<open>parseFrames\<close> returns one array with all the frames of the manifest, those of a hash form
  in the order of its keys, each with a scale ratio added. An empty list of names is not
  absent: see the counterexample below.
\<close>

theorem no_names_flattens:
  "parseFrames None (Some data)
     = Inr (Some (Flat (calculateScaleRatio (Array (allFrames (frames data))))))
   \<and> map_Frames spread (calculateScaleRatio (Array (allFrames (frames data))))
     = Array (allFrames (frames data))"
proof (cases "frames data")
  case (ArrayForm vs)
  then show ?thesis by (simp add: parseFrames_def spread_processFrameArray)
next
  case (HashForm entries)
  have "case_HashValue (\<lambda>fd. [fd]) (\<lambda>fds. fds) = hashFrames"
    by (rule ext) (simp split: HashValue.splits)
  then show ?thesis
    by (simp add: parseFrames_def HashForm spread_processFrameArray)
qed

text \<open>
  The counterexample to C7 as stated: with the empty list of names the grouping branch is
  taken, its loop over the names does nothing, and the result is the empty record, not the
  array of all frames.
\<close>

theorem empty_names_counterexample:
  "parseFrames (Some []) (Some \<lparr>frames = ArrayForm [square 1]\<rparr>) = Inr (Some (Sprites Map.empty))
   \<and> parseFrames (Some []) (Some \<lparr>frames = ArrayForm [square 1]\<rparr>)
       \<noteq> Inr (Some (Flat (calculateScaleRatio (Array [square 1]))))"
  by (simp add: parseFrames_def scaleAnimations_def withScaleRatios_def)

end
